theory Spec2Isabelle
  imports Main
begin

section \<open>Go runtime: integers and decimal strings\<close>

text \<open>
  The handlers convert the lobby counter between its decimal string in the shared store and
  a Go \<open>int\<close> (\<open>strconv.Atoi\<close>, \<open>strconv.Itoa\<close>). A Go \<open>int\<close> has 64 bits on the
  platforms the server is built for; it is an \<open>int\<close> here, with the wrap-around of
  \<open>gameLid++\<close> written out.
\<close>

definition wrap64 :: "int \<Rightarrow> int" where
  "wrap64 x = (x + 2 ^ 63) mod 2 ^ 64 - 2 ^ 63"

definition digitChar :: "nat \<Rightarrow> char" where
  "digitChar d = char_of (48 + d)"

fun digitsOf :: "nat \<Rightarrow> string" where
  "digitsOf n = (if n < 10 then [digitChar n] else digitsOf (n div 10) @ [digitChar (n mod 10)])"

declare digitsOf.simps [simp del]

definition Itoa :: "int \<Rightarrow> string" where
  "Itoa n = (if n < 0 then CHR ''-'' # digitsOf (nat (- n)) else digitsOf (nat n))"

definition isDigit :: "char \<Rightarrow> bool" where
  "isDigit ch = ((48 :: nat) \<le> of_char ch \<and> of_char ch \<le> (57 :: nat))"

definition digitVal :: "char \<Rightarrow> nat" where
  "digitVal ch = of_char ch - 48"

definition parseDigits :: "string \<Rightarrow> nat" where
  "parseDigits body = foldl (\<lambda>n ch. n * 10 + digitVal ch) 0 body"

text \<open>
  \<open>strconv.Atoi\<close>: an optional sign and decimal digits. The handlers drop its error, so what
  is left is the value: 0 on a syntax error, the nearest bound of the 64-bit range when the
  digits are out of range.
\<close>

definition Atoi :: "string \<Rightarrow> int" where
  "Atoi s =
     (let neg = (s \<noteq> [] \<and> hd s = CHR ''-'');
          pos = (s \<noteq> [] \<and> hd s = CHR ''+'');
          body = (if neg then tl s else if pos then tl s else s)
      in if body = [] then 0
         else if list_all isDigit body then
           (if neg then max (- (2 ^ 63)) (- int (parseDigits body))
            else min (2 ^ 63 - 1) (int (parseDigits body)))
         else 0)"

text \<open>
  The quote stripping of \<open>CGAM\<close> and of the second draft of \<open>UGAM\<close>: one leading and then
  one trailing double quote (byte \<open>0x22\<close>) are removed.
\<close>

definition stripQuotes :: "string \<Rightarrow> string" where
  "stripQuotes v =
     (let v1 = (if length v > 0 \<and> hd v = CHR 0x22 then tl v else v)
      in if length v1 > 0 \<and> last v1 = CHR 0x22 then butlast v1 else v1)"

section \<open>Sessions, messages and the process state\<close>

text \<open>
  A command message and an answer packet are Go maps from string to string. An answer
  packet is built by assignments and is a map; an inbound message is also ranged over, so it
  is the list of its entries (keys distinct, in the order the range visits them, which Go
  leaves open). A lookup of a missing key gives the empty string.
\<close>

type_synonym packet = "string \<rightharpoonup> string"
type_synonym message = "(string \<times> string) list"

definition msg_at :: "message \<Rightarrow> string \<Rightarrow> string" where
  "msg_at m k = (case map_of m k of None \<Rightarrow> [] | Some v \<Rightarrow> v)"

datatype addr = TCPAddr string int | UDPAddr string int | OtherAddr

text \<open>
  The client of the transport library, as far as the handlers use it: the active flag, the
  observed remote address, the session state (server role, the two tickers with their period
  in seconds), the session's own key-value state, and the packets written to the connection
  (\<open>WriteFESL\<close>: operation name, packet, payload tag), oldest first.
\<close>

record client =
  IsActive :: bool
  IpAddr :: addr
  IsServer :: bool
  HeartTicker :: "nat option"
  JoinTicker :: "nat option"
  ClientRedisState :: "string \<rightharpoonup> string"
  written :: "(string \<times> packet \<times> nat) list"

text \<open>
  The shared key-value store holds one hash per identifier: \<open>core.RedisState\<close> names it by
  one string, \<open>lib.RedisObject\<close> by a prefix and an id.
\<close>

datatype hashKey = StateHash string | ObjectHash string string

text \<open>
  The process state: the sessions by connection handle, the shared store, the package-level
  variables of the theater manager (lines 76 to 85), the statements executed on the
  durable store by the second draft of \<open>UGAM\<close> (the argument list of every \<open>Exec\<close>),
  and the lines written by \<open>log.Errorln\<close>. Logging below the error level and the debug
  files of \<open>logAnswer\<close> and \<open>LogCommand\<close> are not part of the state.
\<close>

record state =
  clients :: "nat \<Rightarrow> client"
  redis :: "hashKey \<Rightarrow> string \<rightharpoonup> string"
  wantsToJoin :: bool
  canJoin :: bool
  wantsToLeaveQueue :: bool
  localPort :: string
  remotePort :: string
  localIP :: string
  remoteIP :: string
  userId :: string
  nickname :: string
  pid :: string
  updateGameExecs :: "string list list"
  serverStatsExecs :: "string list list"
  errorLog :: "string list"

record event =
  Client :: nat
  Query :: string
  Message :: message
  PayloadID :: nat

text \<open>
  Modelled from the spec: the transport library's send operation and the store's
  \<open>Get\<close> and \<open>Set\<close> are not among the source files. The spec gives their contracts
  (a send operation per connection; \<open>Set(namespace, key, value)\<close> and a read per
  namespace). A read of a key that was never set gives the empty string.
\<close>

definition WriteFESL :: "nat \<Rightarrow> string \<Rightarrow> packet \<Rightarrow> nat \<Rightarrow> state \<Rightarrow> state" where
  "WriteFESL c q p t s =
     s\<lparr>clients := (clients s)(c := (clients s c)\<lparr>written := written (clients s c) @ [(q, p, t)]\<rparr>)\<rparr>"

definition hashSet :: "hashKey \<Rightarrow> string \<Rightarrow> string \<Rightarrow> state \<Rightarrow> state" where
  "hashSet h k v s = s\<lparr>redis := (redis s)(h := (redis s h)(k \<mapsto> v))\<rparr>"

definition hashGet :: "hashKey \<Rightarrow> string \<Rightarrow> state \<Rightarrow> string" where
  "hashGet h k s = (case redis s h k of None \<Rightarrow> [] | Some v \<Rightarrow> v)"

section \<open>The game registry: CGAM\<close>

definition gameServerGlobal :: hashKey where
  "gameServerGlobal = StateHash ''gameServer-config''"

definition gameServerHash :: "string \<Rightarrow> hashKey" where
  "gameServerHash lid = StateHash (''gameServer-'' @ lid)"

text \<open>\<open>New\<close>, lines 106 to 108: the lobby counter starts at \<open>"0"\<close>.\<close>

definition New :: "state \<Rightarrow> state" where
  "New s = hashSet gameServerGlobal ''Lobbies'' ''0'' s"

text \<open>Lines 268 to 270: the counter is read, parsed and incremented.\<close>

definition lobbyCounter :: "state \<Rightarrow> int" where
  "lobbyCounter s = Atoi (hashGet gameServerGlobal ''Lobbies'' s)"

definition CGAM_gameLid :: "state \<Rightarrow> int" where
  "CGAM_gameLid s = wrap64 (lobbyCounter s + 1)"

text \<open>Lines 275 to 284: every entry of the message is stored, its value stripped of quotes.\<close>

fun CGAM_loop :: "hashKey \<Rightarrow> message \<Rightarrow> state \<Rightarrow> state" where
  "CGAM_loop h [] s = s"
| "CGAM_loop h ((index, val) # rest) s = CGAM_loop h rest (hashSet h index (stripQuotes val) s)"

definition CGAM_answer :: "message \<Rightarrow> packet" where
  "CGAM_answer m =
     [''TID'' \<mapsto> msg_at m ''TID'',
      ''MAX-PLAYERS'' \<mapsto> ''16'',
      ''EKEY'' \<mapsto> ''O65zZ2D2A58mNrZw1hmuJw%3d%3d'',
      ''UGID'' \<mapsto> ''7eb6155c-ac70-4567-9fc4-732d56a9334a'',
      ''JOIN'' \<mapsto> msg_at m ''JOIN'',
      ''LID'' \<mapsto> ''1'',
      ''SECRET'' \<mapsto> ''2587913'',
      ''J'' \<mapsto> ''0'',
      ''GID'' \<mapsto> ''5459'']"

text \<open>
  Lines 272 to 304, for the address and the lobby id the handler holds in its local
  variables: the record is written, the answer sent, and last the counter is stored.
\<close>

definition CGAM_store :: "event \<Rightarrow> string \<Rightarrow> int \<Rightarrow> state \<Rightarrow> state" where
  "CGAM_store ev ip gameLid s =
     (let h = gameServerHash (Itoa gameLid);
          s1 = CGAM_loop h (Message ev) s;
          s2 = hashSet h ''LID'' (Itoa gameLid) s1;
          s3 = hashSet h ''IP'' ip s2;
          s4 = hashSet h ''ACTIVE-PLAYERS'' ''0'' s3;
          s5 = hashSet h ''QUEUE-LENGTH'' ''0'' s4;
          s6 = WriteFESL (Client ev) ''CGAM'' (CGAM_answer (Message ev)) 0 s5
      in hashSet gameServerGlobal ''Lobbies'' (Itoa gameLid) s6)"

definition CGAM :: "state \<Rightarrow> event \<Rightarrow> state" where
  "CGAM s ev =
     (if \<not> IsActive (clients s (Client ev)) then s
      else case IpAddr (clients s (Client ev)) of
             TCPAddr ip port \<Rightarrow> CGAM_store ev ip (CGAM_gameLid s) s
           | _ \<Rightarrow> s\<lparr>errorLog := errorLog s @ [''Failed turning IpAddr to net.TCPAddr'']\<rparr>)"

section \<open>The other command handlers\<close>

text \<open>
  What the durable store and the clock answer is not decided by the handlers; it is given to
  them in an environment: the Unix time of \<open>time.Now\<close>, whether \<open>Prepare\<close> fails, the
  row (\<open>pid\<close>, \<open>nickname\<close>) of \<open>revive_soldiers\<close> for a \<open>web_id\<close>, the error of the
  \<open>Exec\<close> of \<open>stmtUpdateGame\<close>, of the first and of the second \<open>Exec\<close> of the statement of
  \<open>setServerStatsStatement\<close>, the rows or the error of the query of \<open>getStatsStatement\<close>
  (by the number of keys and the arguments), and the package's \<open>Shard\<close>. The statements and
  \<open>Shard\<close> are declared outside the source files.
\<close>

record env =
  now :: int
  prepareFails :: bool
  soldier :: "string \<Rightarrow> (string \<times> string) option"
  updateGameErr :: "string option"
  serverStatsErr :: "string option"
  serverStatsRetryErr :: "string option"
  getStatsQuery ::
    "int \<Rightarrow> string list \<Rightarrow> string + (string option \<times> string \<times> string \<times> string \<times> string) list"
  Shard :: string

text \<open>
  A handler returns, or it panics; a panic in a handler's goroutine ends the process. The
  state is the one reached when the handler stopped.
\<close>

datatype result = Returned state | Panicked state

definition ECNL :: "state \<Rightarrow> event \<Rightarrow> state" where
  "ECNL s ev =
     (if \<not> IsActive (clients s (Client ev)) then s
      else WriteFESL (Client ev) ''ECNL''
             [''TID'' \<mapsto> msg_at (Message ev) ''TID'',
              ''GID'' \<mapsto> ''5459'',
              ''LID'' \<mapsto> msg_at (Message ev) ''LID''] 0 s)"

definition EGAM_answer :: "message \<Rightarrow> packet" where
  "EGAM_answer m = [''TID'' \<mapsto> msg_at m ''TID'', ''GID'' \<mapsto> ''5459'', ''LID'' \<mapsto> ''1'']"

text \<open>
  \<open>EGAM\<close>, lines 209 to 243. When \<open>Prepare\<close> fails the handler returns at line 231 and its
  deferred \<open>stmt.Close()\<close> (line 228, deferred before the error is looked at) runs on the nil
  statement, which panics. A \<open>Scan\<close> that finds no row leaves \<open>pid\<close> and \<open>nickname\<close> as they
  were; its error is dropped.
\<close>

definition EGAM :: "env \<Rightarrow> state \<Rightarrow> event \<Rightarrow> result" where
  "EGAM e s ev =
     (if \<not> IsActive (clients s (Client ev)) then Returned s
      else
        let m = Message ev;
            s1 = s\<lparr>localPort := msg_at m ''R-INT-PORT'',
                   localIP := msg_at m ''R-INT-IP'',
                   remotePort := msg_at m ''PORT'',
                   remoteIP := msg_at m ''R-U-externalIp'',
                   userId := msg_at m ''R-U-accid''\<rparr>
        in if prepareFails e then Panicked s1
           else
             let s2 = (case soldier e (msg_at m ''R-U-accid'') of
                         None \<Rightarrow> s1
                       | Some (p, n) \<Rightarrow> s1\<lparr>pid := p, nickname := n\<rparr>);
                 s3 = s2\<lparr>wantsToJoin := True, canJoin := False\<rparr>
             in Returned (WriteFESL (Client ev) ''EGAM'' (EGAM_answer m) 0 s3))"

definition GLST :: "state \<Rightarrow> event \<Rightarrow> state" where
  "GLST s ev = (if \<not> IsActive (clients s (Client ev)) then s else s)"

definition GDAT_answer :: "message \<Rightarrow> packet" where
  "GDAT_answer m =
     [''TYPE'' \<mapsto> ''G'',
      ''AP'' \<mapsto> ''15'',
      ''B-U-server_port'' \<mapsto> ''18569'',
      ''PW'' \<mapsto> ''0'',
      ''B-U-avg_axis_rank'' \<mapsto> ''800.800000'',
      ''P'' \<mapsto> ''18569'',
      ''V'' \<mapsto> ''1.02.1067.0'',
      ''B-U-army_balance'' \<mapsto> ''Balanced'',
      ''B-U-avail_slots_royal'' \<mapsto> ''yes'',
      ''B-U-avail_slots_national'' \<mapsto> ''yes'',
      ''I'' \<mapsto> ''45.77.79.240'',
      ''B-U-data_center'' \<mapsto> ''iad'',
      ''HU'' \<mapsto> ''1'',
      ''B-U-army_distribution'' \<mapsto> ''0,0,0,0,0,0,0,0,0,0,0'',
      ''F'' \<mapsto> ''1'',
      ''B-maxObservers'' \<mapsto> ''0'',
      ''N'' \<mapsto> ''[iad]gs1-test.revive.systems(45.77.79.240%3a18569)'',
      ''NF'' \<mapsto> ''0'',
      ''B-version'' \<mapsto> ''1.02.1067.0'',
      ''B-U-server_ip'' \<mapsto> ''45.77.79.240'',
      ''B-U-community_name'' \<mapsto> ''HeroesSV'',
      ''B-U-percent_full'' \<mapsto> ''0'',
      ''MP'' \<mapsto> ''16'',
      ''B-U-ranked'' \<mapsto> ''yes'',
      ''B-U-easyzone'' \<mapsto> ''no'',
      ''JP'' \<mapsto> ''0'',
      ''QP'' \<mapsto> ''0'',
      ''HN'' \<mapsto> ''gs1-test.revive.systems'',
      ''GID'' \<mapsto> ''5459'',
      ''B-U-elo_rank'' \<mapsto> ''800.800000'',
      ''PL'' \<mapsto> ''PC'',
      ''B-U-server_state'' \<mapsto> ''empty'',
      ''TID'' \<mapsto> msg_at m ''TID'',
      ''B-numObservers'' \<mapsto> ''0'',
      ''J'' \<mapsto> ''O'',
      ''B-U-map'' \<mapsto> ''no_vehicles'',
      ''LID'' \<mapsto> ''1'',
      ''B-U-avg_ally_rank'' \<mapsto> ''800.800000'']"

text \<open>
  \<open>GDAT\<close>, lines 308 to 362. The handle on the lobby's hash (lines 315 and 316) is made and
  never read.
\<close>

definition GDAT :: "state \<Rightarrow> event \<Rightarrow> state" where
  "GDAT s ev =
     (if \<not> IsActive (clients s (Client ev)) then s
      else WriteFESL (Client ev) ''GDAT'' (GDAT_answer (Message ev)) 0 s)"

definition LDAT_packet :: packet where
  "LDAT_packet =
     [''TID'' \<mapsto> ''6'',
      ''FAVORITE-GAMES'' \<mapsto> ''0'',
      ''FAVORITE-PLAYERS'' \<mapsto> ''0'',
      ''LID'' \<mapsto> ''1'',
      ''LOCALE'' \<mapsto> ''en_US'',
      ''MAX-GAMES'' \<mapsto> ''10000'',
      ''NAME'' \<mapsto> ''bfwestPC02'',
      ''NUM-GAMES'' \<mapsto> ''1'',
      ''PASSING'' \<mapsto> ''0'']"

definition LLST :: "state \<Rightarrow> event \<Rightarrow> state" where
  "LLST s ev =
     (if \<not> IsActive (clients s (Client ev)) then s
      else
        let s1 = WriteFESL (Client ev) (Query ev)
                   [''TID'' \<mapsto> msg_at (Message ev) ''TID'', ''NUM-LOBBIES'' \<mapsto> ''1''] 0 s
        in WriteFESL (Client ev) ''LDAT'' LDAT_packet 0 s1)"

definition USER_answer :: "state \<Rightarrow> message \<Rightarrow> packet" where
  "USER_answer s m =
     [''TID'' \<mapsto> msg_at m ''TID'', ''NAME'' \<mapsto> nickname s, ''CID'' \<mapsto> userId s]"

definition USER :: "state \<Rightarrow> event \<Rightarrow> state" where
  "USER s ev =
     (if \<not> IsActive (clients s (Client ev)) then s
      else WriteFESL (Client ev) (Query ev) (USER_answer s (Message ev)) 0 s)"

definition UBRA :: "state \<Rightarrow> event \<Rightarrow> state" where
  "UBRA s ev =
     (if \<not> IsActive (clients s (Client ev)) then s
      else WriteFESL (Client ev) (Query ev) [''TID'' \<mapsto> msg_at (Message ev) ''TID''] 0 s)"

text \<open>\<open>UGAM\<close>, the draft of the theater manager (lines 467 to 485).\<close>

fun UGAM_loop :: "hashKey \<Rightarrow> message \<Rightarrow> state \<Rightarrow> state" where
  "UGAM_loop h [] s = s"
| "UGAM_loop h ((index, val) # rest) s = UGAM_loop h rest (hashSet h index val s)"

definition UGAM :: "state \<Rightarrow> event \<Rightarrow> state" where
  "UGAM s ev =
     (if \<not> IsActive (clients s (Client ev)) then s
      else
        let c = Client ev;
            s1 = s\<lparr>clients := (clients s)(c := (clients s c)\<lparr>IsServer := True\<rparr>)\<rparr>
        in UGAM_loop (gameServerHash (msg_at (Message ev) ''LID'')) (Message ev) s1)"

definition CONN :: "env \<Rightarrow> state \<Rightarrow> event \<Rightarrow> state" where
  "CONN e s ev =
     (if \<not> IsActive (clients s (Client ev)) then s
      else WriteFESL (Client ev) (Query ev)
             [''TID'' \<mapsto> msg_at (Message ev) ''TID'',
              ''TIME'' \<mapsto> Itoa (now e),
              ''activityTimeoutSecs'' \<mapsto> ''30'',
              ''PROT'' \<mapsto> msg_at (Message ev) ''PROT''] 0 s)"

definition EGRS :: "state \<Rightarrow> event \<Rightarrow> state" where
  "EGRS s ev =
     (if \<not> IsActive (clients s (Client ev)) then s
      else WriteFESL (Client ev) ''EGRS'' [''TID'' \<mapsto> msg_at (Message ev) ''TID''] 0 s)"

definition PENT :: "state \<Rightarrow> event \<Rightarrow> state" where
  "PENT s ev =
     (if \<not> IsActive (clients s (Client ev)) then s
      else WriteFESL (Client ev) ''PENT''
             [''TID'' \<mapsto> msg_at (Message ev) ''TID'',
              ''PID'' \<mapsto> msg_at (Message ev) ''PID''] 0 s)"

definition UPLA :: "state \<Rightarrow> event \<Rightarrow> state" where
  "UPLA s ev =
     (if \<not> IsActive (clients s (Client ev)) then s
      else WriteFESL (Client ev) ''UPLA''
             [''TID'' \<mapsto> msg_at (Message ev) ''TID'',
              ''PID'' \<mapsto> msg_at (Message ev) ''PID'',
              ''P-cid'' \<mapsto> msg_at (Message ev) ''P-cid''] 0 s)"

section \<open>The session's tickers\<close>

text \<open>
  \<open>newClient\<close>, lines 550 to 680, makes the heartbeat ticker (every 10 seconds) and the
  join ticker (every second) and starts one goroutine on each.
\<close>

definition newClient :: "state \<Rightarrow> nat \<Rightarrow> state" where
  "newClient s c =
     (if \<not> IsActive (clients s c) then s
      else s\<lparr>clients := (clients s)(c := (clients s c)\<lparr>HeartTicker := Some 10, JoinTicker := Some 1\<rparr>)\<rparr>)"

definition pingPacket :: packet where
  "pingPacket = [''TID'' \<mapsto> ''0'']"

text \<open>
  The heartbeat goroutine, lines 559 to 574. The active flag is written by the transport
  library, so each turn of the loop is given what its two reads of the flag see: the read at
  the top of the loop (line 561) and the read after the ticker has fired (line 566). The
  result is what the goroutine writes to the connection, one element of the list per tick of
  the ticker; when the list ends the goroutine is still waiting.
\<close>

fun heartbeat :: "(bool \<times> bool) list \<Rightarrow> (string \<times> packet \<times> nat) list" where
  "heartbeat [] = []"
| "heartbeat ((atTop, atTick) # ticks) =
     (if \<not> atTop then []
      else if \<not> atTick then []
      else (''PING'', pingPacket, 0) # heartbeat ticks)"

definition EGEG_packet :: "state \<Rightarrow> packet" where
  "EGEG_packet s =
     [''PL'' \<mapsto> ''pc'',
      ''TICKET'' \<mapsto> ''2018751182'',
      ''PID'' \<mapsto> pid s,
      ''I'' \<mapsto> ''45.77.79.240'',
      ''P'' \<mapsto> ''18569'',
      ''HUID'' \<mapsto> ''1'',
      ''EKEY'' \<mapsto> ''O65zZ2D2A58mNrZw1hmuJw%3d%3d'',
      ''INT-IP'' \<mapsto> ''45.77.79.240'',
      ''INT-PORT'' \<mapsto> ''18569'',
      ''SECRET'' \<mapsto> ''2587913'',
      ''UGID'' \<mapsto> ''7eb6155c-ac70-4567-9fc4-732d56a9334a'',
      ''LID'' \<mapsto> ''1'',
      ''GID'' \<mapsto> ''5459'']"

definition EGRQ_packet :: "state \<Rightarrow> packet" where
  "EGRQ_packet s =
     [''TID'' \<mapsto> ''6'',
      ''NAME'' \<mapsto> nickname s,
      ''UID'' \<mapsto> userId s,
      ''PID'' \<mapsto> pid s,
      ''TICKET'' \<mapsto> ''2018751182'',
      ''IP'' \<mapsto> remoteIP s,
      ''PORT'' \<mapsto> remotePort s,
      ''INT-IP'' \<mapsto> localIP s,
      ''INT-PORT'' \<mapsto> localPort s,
      ''PTYPE'' \<mapsto> ''P'',
      ''R-cid'' \<mapsto> userId s,
      ''cid'' \<mapsto> userId s,
      ''R-USER'' \<mapsto> nickname s,
      ''R-UID'' \<mapsto> userId s,
      ''XUID'' \<mapsto> userId s,
      ''R-XUID'' \<mapsto> userId s,
      ''R-U-accid'' \<mapsto> userId s,
      ''R-U-elo'' \<mapsto> ''1'',
      ''R-U-team'' \<mapsto> ''1'',
      ''R-U-kit'' \<mapsto> ''2'',
      ''R-U-lvl'' \<mapsto> ''1'',
      ''R-U-dataCenter'' \<mapsto> ''iad'',
      ''R-U-externalIp'' \<mapsto> remoteIP s,
      ''R-U-internalIp'' \<mapsto> remotePort s,
      ''R-U-category'' \<mapsto> ''5'',
      ''R-U-cid'' \<mapsto> userId s,
      ''R-INT-PORT'' \<mapsto> localPort s,
      ''R-INT-IP'' \<mapsto> localIP s,
      ''LID'' \<mapsto> ''1'',
      ''GID'' \<mapsto> ''5459'']"

text \<open>
  One tick of the join ticker of session \<open>c\<close>, lines 582 to 677, from the read of the
  active flag at line 583 on: a session that is not active is sent nothing (its goroutine
  returns). The \<open>QLVT\<close> packet of a pending leave is only written to the debug files.
\<close>

definition joinTick :: "state \<Rightarrow> nat \<Rightarrow> state" where
  "joinTick s c =
     (if \<not> IsActive (clients s c) then s
      else if \<not> IsServer (clients s c) then
        (if canJoin s then
           (let s1 = s\<lparr>canJoin := False\<rparr>
            in WriteFESL c ''EGEG'' (EGEG_packet s1) 0 s1)
         else s)
      else
        let s2 = (if wantsToJoin s then
                    (let s1 = s\<lparr>wantsToJoin := False\<rparr>
                     in (WriteFESL c ''EGRQ'' (EGRQ_packet s1) 0 s1)\<lparr>canJoin := True\<rparr>)
                  else s)
        in if wantsToLeaveQueue s2 then s2\<lparr>wantsToLeaveQueue := False\<rparr> else s2)"

section \<open>The second draft of UGAM\<close>

text \<open>
  The draft of package \<open>theater\<close> (lines 704 to 755). Its loop skips \<open>TID\<close>, strips the
  quotes, stores the entry in the hash of \<open>gdata\<close> and the game id, and collects the
  arguments of the statement on the durable store; \<open>keys\<close> counts the entries stored.
\<close>

fun UGAM2_loop ::
  "hashKey \<Rightarrow> string \<Rightarrow> message \<Rightarrow> state \<times> string list \<times> nat \<Rightarrow> state \<times> string list \<times> nat" where
  "UGAM2_loop h gameID [] acc = acc"
| "UGAM2_loop h gameID ((index, val) # rest) (s, args, keys) =
     (if index = ''TID'' then UGAM2_loop h gameID rest (s, args, keys)
      else UGAM2_loop h gameID rest
             (hashSet h index (stripQuotes val) s,
              args @ [gameID, index, stripQuotes val],
              keys + 1))"

definition deadlockError :: string where
  "deadlockError = ''Error 1213: Deadlock found when trying to get lock; try restarting transaction''"

definition UGAM2 :: "env \<Rightarrow> state \<Rightarrow> event \<Rightarrow> result" where
  "UGAM2 e s ev =
     (if \<not> IsActive (clients s (Client ev)) then Returned s
      else
        let gameID = msg_at (Message ev) ''GID'';
            (s1, args, keys) = UGAM2_loop (ObjectHash ''gdata'' gameID) gameID (Message ev) (s, [], 0);
            s2 = s1\<lparr>updateGameExecs := updateGameExecs s1 @ [[msg_at (Message ev) ''GID'', Shard e]]\<rparr>
        in case updateGameErr e of
             Some err \<Rightarrow> Panicked s2
           | None \<Rightarrow>
               let s3 = s2\<lparr>serverStatsExecs := serverStatsExecs s2 @ [args]\<rparr>
               in case serverStatsErr e of
                    None \<Rightarrow> Returned s3
                  | Some err \<Rightarrow>
                      let s4 = s3\<lparr>errorLog := errorLog s3 @
                                 [''Failed to update stats for game server '' @ gameID @ '' '' @ err]\<rparr>
                      in if err = deadlockError then
                           (let s5 = s4\<lparr>serverStatsExecs := serverStatsExecs s4 @ [args]\<rparr>
                            in case serverStatsRetryErr e of
                                 None \<Rightarrow> Returned s5
                               | Some err2 \<Rightarrow>
                                   Returned (s5\<lparr>errorLog := errorLog s5 @
                                     [''Failed to update stats for game server '' @ gameID @
                                      '' on the second try '' @ err2]\<rparr>))
                         else Returned s4)"

section \<open>The stats handler of the FESL manager\<close>

text \<open>
  \<open>GetStats\<close>, lines 11 to 58 of \<open>fesl/getStats.client.go\<close>. A query that fails is logged
  and leaves no rows to range over: \<open>rows.Next()\<close> on the nil rows panics. A row is given
  by the error of its \<open>Scan\<close>, if any, and the four variables as the \<open>Scan\<close> leaves them; the
  error is logged and the variables are used as they are.
\<close>

fun GetStats_rows ::
  "(string option \<times> string \<times> string \<times> string \<times> string) list \<Rightarrow>
   packet \<times> int \<times> string list \<Rightarrow> packet \<times> int \<times> string list" where
  "GetStats_rows [] acc = acc"
| "GetStats_rows ((scanErr, userID, heroID, statsKey, statsValue) # rows) (loginPacket, count, logged) =
     GetStats_rows rows
       (loginPacket(''stats.'' @ Itoa count @ ''.key'' \<mapsto> statsKey,
                    ''stats.'' @ Itoa count @ ''.value'' \<mapsto> statsValue,
                    ''stats.'' @ Itoa count @ ''.text'' \<mapsto> statsValue),
        count + 1,
        (case scanErr of
           None \<Rightarrow> logged
         | Some err \<Rightarrow> logged @ [''Issue with database: '' @ err]))"

definition GetStats :: "env \<Rightarrow> state \<Rightarrow> event \<Rightarrow> result" where
  "GetStats e s ev =
     (if \<not> IsActive (clients s (Client ev)) then Returned s
      else
        let m = Message ev;
            owner = msg_at m ''owner'';
            uID = (case ClientRedisState (clients s (Client ev)) ''uID'' of None \<Rightarrow> [] | Some v \<Rightarrow> v);
            loginPacket = [''TXN'' \<mapsto> ''GetStats'', ''ownerId'' \<mapsto> owner, ''ownerType'' \<mapsto> ''1''];
            keys = Atoi (msg_at m ''keys.[]'');
            args = [owner, uID] @ map (\<lambda>i. msg_at m (''keys.'' @ Itoa (int i))) [0 ..< nat keys]
        in case getStatsQuery e keys args of
             Inl err \<Rightarrow>
               Panicked (s\<lparr>errorLog := errorLog s @ [''Failed gettings stats for hero '' @ owner @ '' '' @ err]\<rparr>)
           | Inr rows \<Rightarrow>
               let (packet1, count, logged) = GetStats_rows rows (loginPacket, 0, errorLog s)
               in Returned (WriteFESL (Client ev) (Query ev)
                              (packet1(''stats.[]'' \<mapsto> Itoa count)) (PayloadID ev)
                              (s\<lparr>errorLog := logged\<rparr>)))"

section \<open>The dispatcher\<close>

text \<open>
  \<open>run\<close>, lines 113 to 164, for the events of the TCP socket: each named event starts its
  handler; any other event is only logged. The UDP \<open>ECHO\<close> has no session and is left out.
\<close>

definition run_event :: "env \<Rightarrow> state \<Rightarrow> string \<Rightarrow> event \<Rightarrow> result" where
  "run_event e s name ev =
     (if name = ''newClient'' then Returned (newClient s (Client ev))
      else if name = ''client.command.CONN'' then Returned (CONN e s ev)
      else if name = ''client.command.USER'' then Returned (USER s ev)
      else if name = ''client.command.LLST'' then Returned (LLST s ev)
      else if name = ''client.command.GDAT'' then Returned (GDAT s ev)
      else if name = ''client.command.EGAM'' then EGAM e s ev
      else if name = ''client.command.ECNL'' then Returned (ECNL s ev)
      else if name = ''client.command.CGAM'' then Returned (CGAM s ev)
      else if name = ''client.command.UBRA'' then Returned (UBRA s ev)
      else if name = ''client.command.UGAM'' then Returned (UGAM s ev)
      else if name = ''client.command.EGRS'' then Returned (EGRS s ev)
      else if name = ''client.command.GLST'' then Returned (GLST s ev)
      else if name = ''client.command.PENT'' then Returned (PENT s ev)
      else if name = ''client.command.UPLA'' then Returned (UPLA s ev)
      else Returned s)"

definition stateOf :: "result \<Rightarrow> state" where
  "stateOf r = (case r of Returned s \<Rightarrow> s | Panicked s \<Rightarrow> s)"

text \<open>
  Modelled from the spec: the transport library is not among the source files. It makes the
  client of a connection, with the connection's remote address, and keeps the client's active
  flag, which is "false once the connection is closing or closed".
\<close>

definition connect :: "state \<Rightarrow> nat \<Rightarrow> addr \<Rightarrow> state" where
  "connect s c a =
     s\<lparr>clients := (clients s)
         (c := \<lparr>IsActive = True, IpAddr = a, IsServer = False, HeartTicker = None,
                JoinTicker = None, ClientRedisState = Map.empty, written = []\<rparr>)\<rparr>"

definition close :: "state \<Rightarrow> nat \<Rightarrow> state" where
  "close s c = s\<lparr>clients := (clients s)(c := (clients s c)\<lparr>IsActive := False\<rparr>)\<rparr>"

text \<open>
  What the process does, one thing after the other: a connection is made or closed by the
  transport library, an event of the dispatcher is handled (with what the outside answers while
  it is handled), or a session's join ticker ticks. After a panic nothing more is done.
\<close>

datatype action = Connect nat addr | Close nat | Event env string event | JoinTick nat

definition perform :: "state \<Rightarrow> action \<Rightarrow> result" where
  "perform s a =
     (case a of
        Connect c ad \<Rightarrow> Returned (connect s c ad)
      | Close c \<Rightarrow> Returned (close s c)
      | Event e name ev \<Rightarrow> run_event e s name ev
      | JoinTick c \<Rightarrow> Returned (joinTick s c))"

fun perform_all :: "state \<Rightarrow> action list \<Rightarrow> result" where
  "perform_all s [] = Returned s"
| "perform_all s (a # rest) =
     (case perform s a of
        Returned s1 \<Rightarrow> perform_all s1 rest
      | Panicked s1 \<Rightarrow> Panicked s1)"

text \<open>Whether an action is a join request (\<open>EGAM\<close>) given to its handler.\<close>

definition isJoinRequest :: "action \<Rightarrow> bool" where
  "isJoinRequest a =
     (case a of Event e name ev \<Rightarrow> name = ''client.command.EGAM'' | _ \<Rightarrow> False)"

section \<open>Runs of CGAM\<close>

text \<open>
  Whether a \<open>CGAM\<close> gets past its two guards (lines 256 to 266) and so assigns a lobby id.
\<close>

definition CGAM_creates :: "state \<Rightarrow> event \<Rightarrow> bool" where
  "CGAM_creates s ev =
     (if \<not> IsActive (clients s (Client ev)) then False
      else case IpAddr (clients s (Client ev)) of TCPAddr ip port \<Rightarrow> True | _ \<Rightarrow> False)"

text \<open>
  A run of calls handled one after the other, each to its end before the next begins: the
  state it reaches and the lobby ids it assigns, in the order of the calls.
\<close>

fun CGAM_run :: "state \<Rightarrow> event list \<Rightarrow> state" where
  "CGAM_run s [] = s"
| "CGAM_run s (ev # evs) = CGAM_run (CGAM s ev) evs"

fun CGAM_ids :: "state \<Rightarrow> event list \<Rightarrow> int list" where
  "CGAM_ids s [] = []"
| "CGAM_ids s (ev # evs) =
     (if CGAM_creates s ev then CGAM_gameLid s # CGAM_ids (CGAM s ev) evs
      else CGAM_ids (CGAM s ev) evs)"

text \<open>
  \<open>run\<close> starts every handler in a goroutine of its own, so the calls of a list can overlap.
  A call reads the counter in one step (\<open>ReadCounter\<close>: the guards and lines 261 to 270,
  leaving the address and the lobby id in the call's local variables) and writes the store
  in a later step (\<open>StoreLobby\<close>: lines 272 to 304). A schedule is the order of these steps
  of the calls, each call named by its position in the list.
\<close>

datatype CGAM_step = ReadCounter nat | StoreLobby nat

fun CGAM_interleaved ::
  "event list \<Rightarrow> CGAM_step list \<Rightarrow> (nat \<rightharpoonup> string \<times> int) \<times> state \<Rightarrow> (nat \<rightharpoonup> string \<times> int) \<times> state" where
  "CGAM_interleaved evs [] (locals, s) = (locals, s)"
| "CGAM_interleaved evs (ReadCounter i # steps) (locals, s) =
     (if i < length evs then
        (if \<not> IsActive (clients s (Client (evs ! i))) then CGAM_interleaved evs steps (locals, s)
         else case IpAddr (clients s (Client (evs ! i))) of
                TCPAddr ip port \<Rightarrow>
                  CGAM_interleaved evs steps (locals(i \<mapsto> (ip, CGAM_gameLid s)), s)
              | _ \<Rightarrow>
                  CGAM_interleaved evs steps
                    (locals, s\<lparr>errorLog := errorLog s @ [''Failed turning IpAddr to net.TCPAddr'']\<rparr>))
      else CGAM_interleaved evs steps (locals, s))"
| "CGAM_interleaved evs (StoreLobby i # steps) (locals, s) =
     (if i < length evs then
        (case locals i of
           None \<Rightarrow> CGAM_interleaved evs steps (locals, s)
         | Some (ip, gameLid) \<Rightarrow>
             CGAM_interleaved evs steps (locals, CGAM_store (evs ! i) ip gameLid s))
      else CGAM_interleaved evs steps (locals, s))"

section \<open>Example sessions and messages\<close>

text \<open>
  The process as it starts: no session is connected, the variables of lines 76 to 85 have
  their initial values, the store is empty and nothing has been logged.
\<close>

definition noClient :: client where
  "noClient =
     \<lparr>IsActive = False, IpAddr = OtherAddr, IsServer = False, HeartTicker = None,
      JoinTicker = None, ClientRedisState = Map.empty, written = []\<rparr>"

definition connected :: "addr \<Rightarrow> client" where
  "connected a = noClient\<lparr>IsActive := True, IpAddr := a\<rparr>"

definition start :: state where
  "start =
     \<lparr>clients = (\<lambda>c. noClient), redis = (\<lambda>h. Map.empty),
      wantsToJoin = False, canJoin = False, wantsToLeaveQueue = False,
      localPort = [], remotePort = [], localIP = [], remoteIP = [],
      userId = [], nickname = [], pid = [],
      updateGameExecs = [], serverStatsExecs = [], errorLog = []\<rparr>"

text \<open>Two game servers connected from different addresses, after \<open>New\<close>.\<close>

definition twoServers :: state where
  "twoServers =
     New (start\<lparr>clients := (clients start)
            (1 := connected (TCPAddr ''10.0.0.7'' 40001),
             2 := connected (TCPAddr ''10.0.0.8'' 40002))\<rparr>)"

definition createA :: event where
  "createA =
     \<lparr>Client = 1, Query = ''CGAM'',
      Message = [(''TID'', ''3''), (''NAME'', CHR 0x22 # ''A'' @ [CHR 0x22]), (''IP'', ''6.6.6.6'')],
      PayloadID = 0\<rparr>"

definition createB :: event where
  "createB =
     \<lparr>Client = 2, Query = ''CGAM'',
      Message = [(''TID'', ''4''), (''NAME'', ''B''), (''QUEUE-LENGTH'', ''9'')],
      PayloadID = 0\<rparr>"

text \<open>
  A durable store that knows the account \<open>42\<close> and no other, and answers every statement
  without an error.
\<close>

definition exampleEnv :: env where
  "exampleEnv =
     \<lparr>now = 1500000000, prepareFails = False,
      soldier = (\<lambda>a. if a = ''42'' then Some (''7001'', ''Alice'') else None),
      updateGameErr = None, serverStatsErr = None, serverStatsRetryErr = None,
      getStatsQuery = (\<lambda>keys args. Inr []), Shard = ''shard1''\<rparr>"

text \<open>
  A game server on session 1, which has sent \<open>UGAM\<close> before, and a game client on session 3.
\<close>

definition serverAndClient :: state where
  "serverAndClient =
     New (start\<lparr>clients := (clients start)
            (1 := (connected (TCPAddr ''10.0.0.7'' 40001))\<lparr>IsServer := True\<rparr>,
             3 := connected (TCPAddr ''10.0.0.9'' 50003))\<rparr>)"

definition joinRequest :: "string \<Rightarrow> event" where
  "joinRequest accid =
     \<lparr>Client = 3, Query = ''EGAM'',
      Message = [(''TID'', ''5''), (''R-U-accid'', accid), (''PORT'', ''18567''),
                 (''R-INT-PORT'', ''18567''), (''R-INT-IP'', ''192.168.1.5''),
                 (''R-U-externalIp'', ''10.0.0.9''), (''LID'', ''1''), (''GID'', ''5459'')],
      PayloadID = 0\<rparr>"

definition userQuery :: event where
  "userQuery = \<lparr>Client = 1, Query = ''USER'', Message = [(''TID'', ''9'')], PayloadID = 0\<rparr>"

definition updateGame :: event where
  "updateGame =
     \<lparr>Client = 1, Query = ''UGAM'',
      Message = [(''TID'', ''7''), (''LID'', ''1''), (''GID'', ''5459''),
                 (''B-U-map'', CHR 0x22 # ''village'' @ [CHR 0x22]), (''B-U-custom'', ''x'')],
      PayloadID = 0\<rparr>"

definition gameQuery :: event where
  "gameQuery =
     \<lparr>Client = 3, Query = ''GDAT'', Message = [(''TID'', ''8''), (''LID'', ''1'')], PayloadID = 0\<rparr>"

text \<open>
  A run of the process: the server and the client connect, the client asks to join, then the
  server's join ticker ticks and the server updates its game.
\<close>

definition beforeJoin :: "action list" where
  "beforeJoin = [Connect 1 (TCPAddr ''10.0.0.7'' 40001), Connect 3 (TCPAddr ''10.0.0.9'' 50003)]"

definition afterJoin :: "action list" where
  "afterJoin = [JoinTick 1, Event exampleEnv ''client.command.UGAM'' updateGame]"


section \<open>Properties\<close>

subsection \<open>Decimal strings\<close>

lemma isDigit_digitChar: "d < 10 \<Longrightarrow> isDigit (digitChar d)"
  by (simp add: isDigit_def digitChar_def)

lemma digitVal_digitChar: "d < 10 \<Longrightarrow> digitVal (digitChar d) = d"
  by (simp add: digitVal_def digitChar_def)

lemma digitsOf_nonempty: "digitsOf n \<noteq> []"
  by (subst digitsOf.simps) simp

lemma digitsOf_digits: "list_all isDigit (digitsOf n)"
proof (induction n rule: digitsOf.induct)
  case (1 n)
  show ?case
  proof (cases "n < 10")
    case True
    then show ?thesis by (subst digitsOf.simps) (simp add: isDigit_digitChar)
  next
    case False
    with 1 show ?thesis by (subst digitsOf.simps) (simp add: isDigit_digitChar)
  qed
qed

lemma parseDigits_snoc: "parseDigits (cs @ [c]) = parseDigits cs * 10 + digitVal c"
  by (simp add: parseDigits_def)

lemma parseDigits_digitsOf: "parseDigits (digitsOf n) = n"
proof (induction n rule: digitsOf.induct)
  case (1 n)
  show ?case
  proof (cases "n < 10")
    case True
    then show ?thesis
      by (subst digitsOf.simps) (simp add: parseDigits_def digitVal_digitChar)
  next
    case False
    with 1 have "parseDigits (digitsOf (n div 10)) = n div 10" by simp
    with False show ?thesis
      by (subst digitsOf.simps) (simp add: parseDigits_snoc digitVal_digitChar)
  qed
qed

lemma hd_digitsOf_digit: "isDigit (hd (digitsOf n))"
  using digitsOf_digits [of n] digitsOf_nonempty [of n]
  by (cases "digitsOf n") simp_all

lemma isDigit_not_sign: "isDigit c \<Longrightarrow> c \<noteq> CHR ''-'' \<and> c \<noteq> CHR ''+''"
  by (auto simp: isDigit_def)

text \<open>Within the 64-bit range \<open>Atoi\<close> reads back what \<open>Itoa\<close> wrote.\<close>

lemma Atoi_Itoa: "- (2 ^ 63) \<le> n \<Longrightarrow> n < 2 ^ 63 \<Longrightarrow> Atoi (Itoa n) = n"
proof (cases "n < 0")
  case True
  assume "- (2 ^ 63) \<le> n"
  with True show ?thesis
    by (simp add: Atoi_def Itoa_def digitsOf_nonempty digitsOf_digits parseDigits_digitsOf)
next
  case False
  assume "n < 2 ^ 63"
  with False hd_digitsOf_digit [of "nat n"] isDigit_not_sign [of "hd (digitsOf (nat n))"]
  show ?thesis
    by (simp add: Atoi_def Itoa_def digitsOf_nonempty digitsOf_digits parseDigits_digitsOf)
qed

lemma digitsOf_inj: "digitsOf a = digitsOf b \<Longrightarrow> a = b"
  by (metis parseDigits_digitsOf)

lemma Itoa_inj: "Itoa a = Itoa b \<Longrightarrow> a = b"
proof -
  assume eq: "Itoa a = Itoa b"
  have neg: "hd (Itoa x) = CHR ''-'' \<longleftrightarrow> x < 0" for x
    using hd_digitsOf_digit [of "nat x"] isDigit_not_sign [of "hd (digitsOf (nat x))"]
    by (simp add: Itoa_def)
  from eq neg [of a] neg [of b] have s: "a < 0 \<longleftrightarrow> b < 0" by simp
  show ?thesis
  proof (cases "a < 0")
    case True
    with s eq have "digitsOf (nat (- a)) = digitsOf (nat (- b))" by (simp add: Itoa_def)
    then have "nat (- a) = nat (- b)" by (rule digitsOf_inj)
    with True s show ?thesis by simp
  next
    case False
    with s eq have "digitsOf (nat a) = digitsOf (nat b)" by (simp add: Itoa_def)
    then have "nat a = nat b" by (rule digitsOf_inj)
    with False s show ?thesis by simp
  qed
qed

lemma Itoa_not_config: "Itoa n \<noteq> ''config''"
proof
  assume "Itoa n = ''config''"
  then have "hd (Itoa n) = CHR ''c''" by simp
  moreover have "hd (Itoa n) = CHR ''-'' \<or> isDigit (hd (Itoa n))"
    using hd_digitsOf_digit [of "nat n"] by (simp add: Itoa_def)
  ultimately show False by (auto simp: isDigit_def)
qed

lemma wrap64_range: "- (2 ^ 63) \<le> wrap64 x \<and> wrap64 x < 2 ^ 63"
  by (simp add: wrap64_def)

lemma wrap64_id: "- (2 ^ 63) \<le> x \<Longrightarrow> x < 2 ^ 63 \<Longrightarrow> wrap64 x = x"
  by (simp add: wrap64_def)

subsection \<open>The store\<close>

lemma redis_hashSet:
  "redis (hashSet h k v s) = (redis s)(h := (redis s h)(k \<mapsto> v))"
  by (simp add: hashSet_def)

lemma redis_WriteFESL: "redis (WriteFESL c q p t s) = redis s"
  by (simp add: WriteFESL_def)

text \<open>
  C7. A lobby created by \<open>CGAM\<close> on an active session with a TCP address has, in its stored
  record, the connection's observed address under \<open>IP\<close>, whatever the message supplied
  under that key, and \<open>"0"\<close> under \<open>ACTIVE-PLAYERS\<close> and \<open>QUEUE-LENGTH\<close>.
\<close>

theorem CGAM_record_ip_and_counters:
  assumes "IsActive (clients s (Client ev))"
    and "IpAddr (clients s (Client ev)) = TCPAddr ip port"
  shows "redis (CGAM s ev) (gameServerHash (Itoa (CGAM_gameLid s))) ''IP'' = Some ip
    \<and> redis (CGAM s ev) (gameServerHash (Itoa (CGAM_gameLid s))) ''ACTIVE-PLAYERS'' = Some ''0''
    \<and> redis (CGAM s ev) (gameServerHash (Itoa (CGAM_gameLid s))) ''QUEUE-LENGTH'' = Some ''0''"
  using assms
  by (simp add: CGAM_def CGAM_store_def Let_def redis_hashSet redis_WriteFESL
      gameServerHash_def gameServerGlobal_def)

theorem CGAM_record_ip_and_counters_witness:
  "IsActive (clients twoServers (Client createA))
   \<and> IpAddr (clients twoServers (Client createA)) = TCPAddr ''10.0.0.7'' 40001
   \<and> msg_at (Message createA) ''IP'' = ''6.6.6.6''
   \<and> Itoa (CGAM_gameLid twoServers) = ''1''
   \<and> redis (CGAM twoServers createA) (gameServerHash (Itoa (CGAM_gameLid twoServers))) ''IP''
       = Some ''10.0.0.7''
   \<and> redis (CGAM twoServers createA) (gameServerHash (Itoa (CGAM_gameLid twoServers)))
       ''ACTIVE-PLAYERS'' = Some ''0''
   \<and> redis (CGAM twoServers createA) (gameServerHash (Itoa (CGAM_gameLid twoServers)))
       ''QUEUE-LENGTH'' = Some ''0''"
proof -
  have active: "IsActive (clients twoServers (Client createA))"
    by code_simp
  have tcp: "IpAddr (clients twoServers (Client createA)) = TCPAddr ''10.0.0.7'' 40001"
    by code_simp
  have supplied: "msg_at (Message createA) ''IP'' = ''6.6.6.6''"
    by code_simp
  have lid: "Itoa (CGAM_gameLid twoServers) = ''1''"
    by code_simp
  from CGAM_record_ip_and_counters [OF active tcp] active tcp supplied lid
  show ?thesis by simp
qed

subsection \<open>Lobby ids\<close>

lemma Atoi_range: "- (2 ^ 63) \<le> Atoi s \<and> Atoi s < 2 ^ 63"
  by (simp add: Atoi_def Let_def min_def max_def)

lemma lobbyCounter_range: "- (2 ^ 63) \<le> lobbyCounter s \<and> lobbyCounter s < 2 ^ 63"
  using Atoi_range [of "hashGet gameServerGlobal ''Lobbies'' s"] by (simp add: lobbyCounter_def)

lemma gameServerHash_inj: "gameServerHash (Itoa a) = gameServerHash (Itoa b) \<Longrightarrow> a = b"
  by (simp add: gameServerHash_def Itoa_inj)

lemma gameServerHash_not_global: "gameServerHash (Itoa a) \<noteq> gameServerGlobal"
  by (simp add: gameServerHash_def gameServerGlobal_def Itoa_not_config)

lemma redis_CGAM_loop_other: "h' \<noteq> h \<Longrightarrow> redis (CGAM_loop h m s) h' = redis s h'"
  by (induction h m s rule: CGAM_loop.induct) (simp_all add: redis_hashSet)

lemma redis_CGAM_store_other:
  "h' \<noteq> gameServerHash (Itoa g) \<Longrightarrow> h' \<noteq> gameServerGlobal \<Longrightarrow>
   redis (CGAM_store ev ip g s) h' = redis s h'"
  by (simp add: CGAM_store_def Let_def redis_hashSet redis_WriteFESL redis_CGAM_loop_other)

lemma lobbyCounter_CGAM_store:
  "- (2 ^ 63) \<le> g \<Longrightarrow> g < 2 ^ 63 \<Longrightarrow> lobbyCounter (CGAM_store ev ip g s) = g"
  by (simp add: lobbyCounter_def CGAM_store_def Let_def hashGet_def redis_hashSet Atoi_Itoa)

lemma lobbyCounter_errorLog: "lobbyCounter (s\<lparr>errorLog := l\<rparr>) = lobbyCounter s"
  by (simp add: lobbyCounter_def hashGet_def)

text \<open>A call that creates a lobby leaves the id it assigned in the counter.\<close>

lemma lobbyCounter_CGAM:
  "lobbyCounter (CGAM s ev) = (if CGAM_creates s ev then CGAM_gameLid s else lobbyCounter s)"
  using wrap64_range [of "lobbyCounter s + 1"]
  by (auto simp: CGAM_def CGAM_creates_def lobbyCounter_CGAM_store lobbyCounter_errorLog
      CGAM_gameLid_def split: addr.splits)

lemma CGAM_gameLid_next: "lobbyCounter s < 2 ^ 63 - 1 \<Longrightarrow> CGAM_gameLid s = lobbyCounter s + 1"
  using lobbyCounter_range [of s] by (simp add: CGAM_gameLid_def wrap64_id)

lemma CGAM_ids_bounds:
  "lobbyCounter s + int (length evs) < 2 ^ 63 \<Longrightarrow>
   lobbyCounter (CGAM_run s evs) \<le> lobbyCounter s + int (length evs)
   \<and> lobbyCounter s \<le> lobbyCounter (CGAM_run s evs)
   \<and> (\<forall>i \<in> set (CGAM_ids s evs). lobbyCounter s < i \<and> i \<le> lobbyCounter (CGAM_run s evs))
   \<and> sorted_wrt (<) (CGAM_ids s evs)"
proof (induction evs arbitrary: s)
  case Nil
  then show ?case by simp
next
  case (Cons ev evs)
  from Cons.prems have small: "lobbyCounter s < 2 ^ 63 - 1" by simp
  then have nxt: "CGAM_gameLid s = lobbyCounter s + 1" by (rule CGAM_gameLid_next)
  have step: "lobbyCounter (CGAM s ev)
      = (if CGAM_creates s ev then lobbyCounter s + 1 else lobbyCounter s)"
    by (simp add: lobbyCounter_CGAM nxt)
  with Cons.prems have "lobbyCounter (CGAM s ev) + int (length evs) < 2 ^ 63"
    by (simp split: if_splits)
  from Cons.IH [OF this] step nxt show ?case
    by (auto split: if_splits)
qed

lemma CGAM_run_append: "CGAM_run s (xs @ ys) = CGAM_run (CGAM_run s xs) ys"
  by (induction xs arbitrary: s) simp_all

lemma CGAM_ids_append: "CGAM_ids s (xs @ ys) = CGAM_ids s xs @ CGAM_ids (CGAM_run s xs) ys"
  by (induction xs arbitrary: s) simp_all

lemma CGAM_keeps_other_lobbies:
  "i \<noteq> CGAM_gameLid s \<Longrightarrow>
   redis (CGAM s ev) (gameServerHash (Itoa i)) = redis s (gameServerHash (Itoa i))"
proof -
  assume "i \<noteq> CGAM_gameLid s"
  with gameServerHash_inj [of i "CGAM_gameLid s"]
  have "gameServerHash (Itoa i) \<noteq> gameServerHash (Itoa (CGAM_gameLid s))" by blast
  then have "redis (CGAM_store ev ip (CGAM_gameLid s) s) (gameServerHash (Itoa i))
      = redis s (gameServerHash (Itoa i))" for ip
    using gameServerHash_not_global [of i] by (rule redis_CGAM_store_other)
  then show ?thesis
    by (simp add: CGAM_def split: addr.splits)
qed

text \<open>
  \<open>New\<close> puts the counter back to 0 whatever the store holds, so the first lobby created
  after a start of the process gets id 1 again.
\<close>

lemma New_restarts_counter: "lobbyCounter (New s) = 0 \<and> CGAM_gameLid (New s) = 1"
proof -
  have "Atoi ''0'' = 0"
    by (simp add: Atoi_def isDigit_def parseDigits_def digitVal_def)
  then have "lobbyCounter (New s) = 0"
    by (simp add: lobbyCounter_def New_def hashGet_def redis_hashSet)
  then show ?thesis
    by (simp add: CGAM_gameLid_def wrap64_def)
qed

text \<open>
  The two steps of a call, taken one right after the other, are the handler; a schedule that
  takes the calls in turn is the run that handles them one after the other.
\<close>

lemma CGAM_interleaved_single:
  "snd (CGAM_interleaved [ev] [ReadCounter 0, StoreLobby 0] (Map.empty, s)) = CGAM s ev"
  by (simp add: CGAM_def split: addr.splits)

lemma CGAM_interleaved_pair:
  assumes "i < length evs" and "locals i = None"
  shows "\<exists>locals'. CGAM_interleaved evs (ReadCounter i # StoreLobby i # rest) (locals, s)
      = CGAM_interleaved evs rest (locals', CGAM s (evs ! i))
    \<and> (\<forall>j. j \<noteq> i \<longrightarrow> locals' j = locals j)"
proof (cases "IsActive (clients s (Client (evs ! i)))")
  case False
  with assms have "CGAM_interleaved evs (ReadCounter i # StoreLobby i # rest) (locals, s)
      = CGAM_interleaved evs rest (locals, CGAM s (evs ! i))"
    by (simp add: CGAM_def)
  then show ?thesis by blast
next
  case True
  show ?thesis
  proof (cases "IpAddr (clients s (Client (evs ! i)))")
    case (TCPAddr ip port)
    with True assms have "CGAM_interleaved evs (ReadCounter i # StoreLobby i # rest) (locals, s)
        = CGAM_interleaved evs rest (locals(i \<mapsto> (ip, CGAM_gameLid s)), CGAM s (evs ! i))"
      by (simp add: CGAM_def)
    then show ?thesis by auto
  next
    case (UDPAddr ip port)
    with True assms have "CGAM_interleaved evs (ReadCounter i # StoreLobby i # rest) (locals, s)
        = CGAM_interleaved evs rest (locals, CGAM s (evs ! i))"
      by (simp add: CGAM_def)
    then show ?thesis by blast
  next
    case OtherAddr
    with True assms have "CGAM_interleaved evs (ReadCounter i # StoreLobby i # rest) (locals, s)
        = CGAM_interleaved evs rest (locals, CGAM s (evs ! i))"
      by (simp add: CGAM_def)
    then show ?thesis by blast
  qed
qed

lemma CGAM_interleaved_in_turn:
  "snd (CGAM_interleaved [a, b] [ReadCounter 0, StoreLobby 0, ReadCounter 1, StoreLobby 1]
     (Map.empty, s)) = CGAM_run s [a, b]"
proof -
  obtain l1 where one: "CGAM_interleaved [a, b]
      (ReadCounter 0 # StoreLobby 0 # [ReadCounter 1, StoreLobby 1]) (Map.empty, s)
      = CGAM_interleaved [a, b] [ReadCounter 1, StoreLobby 1] (l1, CGAM s ([a, b] ! 0))"
    and keep: "\<forall>j. j \<noteq> 0 \<longrightarrow> l1 j = Map.empty j"
    using CGAM_interleaved_pair [of 0 "[a, b]" Map.empty "[ReadCounter 1, StoreLobby 1]" s]
    by auto
  from keep have "l1 1 = None" by simp
  then obtain l2 where two: "CGAM_interleaved [a, b] (ReadCounter 1 # StoreLobby 1 # [])
      (l1, CGAM s ([a, b] ! 0)) = CGAM_interleaved [a, b] [] (l2, CGAM (CGAM s ([a, b] ! 0)) ([a, b] ! 1))"
    using CGAM_interleaved_pair [of 1 "[a, b]" l1 "[]" "CGAM s ([a, b] ! 0)"]
    by auto
  from one two show ?thesis by simp
qed

text \<open>
  C1, as the code has it. When the calls of a run are handled one after the other, and the
  counter stays below the end of the 64-bit range, the lobby ids assigned are strictly
  increasing, so pairwise distinct, and no call of the run changes the stored record of a
  lobby id that an earlier call of the run assigned. (The answer packet's \<open>LID\<close> is the
  constant \<open>"1"\<close>; the ids are those of the counter.)
\<close>

theorem CGAM_sequential_ids:
  assumes "lobbyCounter s + int (length evs) < 2 ^ 63"
  shows "sorted_wrt (<) (CGAM_ids s evs) \<and> distinct (CGAM_ids s evs)
    \<and> (\<forall>pre ev post. evs = pre @ ev # post \<longrightarrow>
         (\<forall>i \<in> set (CGAM_ids s pre).
            redis (CGAM (CGAM_run s pre) ev) (gameServerHash (Itoa i))
              = redis (CGAM_run s pre) (gameServerHash (Itoa i))))"
proof -
  from CGAM_ids_bounds [OF assms] have sorted: "sorted_wrt (<) (CGAM_ids s evs)" by simp
  then have dist: "distinct (CGAM_ids s evs)"
    by (simp add: strict_sorted_iff)
  have keep: "redis (CGAM (CGAM_run s pre) ev) (gameServerHash (Itoa i))
      = redis (CGAM_run s pre) (gameServerHash (Itoa i))"
    if split: "evs = pre @ ev # post" and i: "i \<in> set (CGAM_ids s pre)" for pre ev post i
  proof -
    from assms split have pre: "lobbyCounter s + int (length pre) < 2 ^ 63" by simp
    from CGAM_ids_bounds [OF pre] i have le: "i \<le> lobbyCounter (CGAM_run s pre)" by simp
    from CGAM_ids_bounds [OF pre] assms split
    have "lobbyCounter (CGAM_run s pre) < 2 ^ 63 - 1" by simp
    then have "CGAM_gameLid (CGAM_run s pre) = lobbyCounter (CGAM_run s pre) + 1"
      by (rule CGAM_gameLid_next)
    with le have "i \<noteq> CGAM_gameLid (CGAM_run s pre)" by simp
    then show ?thesis by (rule CGAM_keeps_other_lobbies)
  qed
  from sorted dist keep show ?thesis by blast
qed

theorem CGAM_sequential_ids_witness:
  "lobbyCounter twoServers + int (length [createA, createB]) < 2 ^ 63
   \<and> CGAM_ids twoServers [createA, createB] = [1, 2]
   \<and> sorted_wrt (<) (CGAM_ids twoServers [createA, createB])
   \<and> distinct (CGAM_ids twoServers [createA, createB])
   \<and> redis (CGAM (CGAM_run twoServers [createA]) createB) (gameServerHash (Itoa 1))
       = redis (CGAM_run twoServers [createA]) (gameServerHash (Itoa 1))"
proof -
  have zero: "lobbyCounter twoServers = 0"
    by code_simp
  then have small: "lobbyCounter twoServers + int (length [createA, createB]) < 2 ^ 63"
    by simp
  have ids: "CGAM_ids twoServers [createA, createB] = [1, 2]"
    by code_simp
  have first: "CGAM_ids twoServers [createA] = [1]"
    by code_simp
  note all = CGAM_sequential_ids [OF small]
  from all have "\<forall>i \<in> set (CGAM_ids twoServers [createA]).
      redis (CGAM (CGAM_run twoServers [createA]) createB) (gameServerHash (Itoa i))
        = redis (CGAM_run twoServers [createA]) (gameServerHash (Itoa i))"
    by (metis append.simps)
  with first have "redis (CGAM (CGAM_run twoServers [createA]) createB) (gameServerHash (Itoa 1))
      = redis (CGAM_run twoServers [createA]) (gameServerHash (Itoa 1))"
    by simp
  with all small ids show ?thesis by simp
qed

text \<open>
  The claim C1 as it is stated, for calls that overlap, fails: when the two servers' calls
  both read the counter before either stores it, both are assigned lobby id 1, and the
  second call's record replaces the first one's (the name \<open>A\<close> stored for lobby 1 becomes
  \<open>B\<close>).
\<close>

theorem CGAM_overlapping_calls_share_id:
  "map_option snd (fst (CGAM_interleaved [createA, createB]
       [ReadCounter 0, ReadCounter 1, StoreLobby 0, StoreLobby 1] (Map.empty, twoServers)) 0) = Some 1
   \<and> map_option snd (fst (CGAM_interleaved [createA, createB]
       [ReadCounter 0, ReadCounter 1, StoreLobby 0, StoreLobby 1] (Map.empty, twoServers)) 1) = Some 1
   \<and> redis (snd (CGAM_interleaved [createA, createB]
       [ReadCounter 0, ReadCounter 1, StoreLobby 0] (Map.empty, twoServers)))
       (gameServerHash ''1'') ''NAME'' = Some ''A''
   \<and> redis (snd (CGAM_interleaved [createA, createB]
       [ReadCounter 0, ReadCounter 1, StoreLobby 0, StoreLobby 1] (Map.empty, twoServers)))
       (gameServerHash ''1'') ''NAME'' = Some ''B''"
  by code_simp

subsection \<open>Packets written and flags kept\<close>

lemma clients_WriteFESL:
  "clients (WriteFESL c q p t s) = (clients s)(c := (clients s c)\<lparr>written := written (clients s c) @ [(q, p, t)]\<rparr>)"
  by (simp add: WriteFESL_def)


lemma globals_WriteFESL:
  "wantsToJoin (WriteFESL c q p t s) = wantsToJoin s
   \<and> canJoin (WriteFESL c q p t s) = canJoin s
   \<and> wantsToLeaveQueue (WriteFESL c q p t s) = wantsToLeaveQueue s
   \<and> nickname (WriteFESL c q p t s) = nickname s
   \<and> userId (WriteFESL c q p t s) = userId s
   \<and> pid (WriteFESL c q p t s) = pid s"
  by (simp add: WriteFESL_def)

lemma stateOf_simps: "stateOf (Returned s) = s" "stateOf (Panicked s) = s"
  by (simp_all add: stateOf_def)

subsection \<open>Join requests\<close>

lemma EGAM_prepared:
  assumes "IsActive (clients s (Client ev))" and "\<not> prepareFails e"
  shows "EGAM e s ev = Returned (WriteFESL (Client ev) ''EGAM'' (EGAM_answer (Message ev)) 0
    ((case soldier e (msg_at (Message ev) ''R-U-accid'') of
        None \<Rightarrow> s\<lparr>localPort := msg_at (Message ev) ''R-INT-PORT'',
                   localIP := msg_at (Message ev) ''R-INT-IP'',
                   remotePort := msg_at (Message ev) ''PORT'',
                   remoteIP := msg_at (Message ev) ''R-U-externalIp'',
                   userId := msg_at (Message ev) ''R-U-accid''\<rparr>
      | Some (p, n) \<Rightarrow> s\<lparr>localPort := msg_at (Message ev) ''R-INT-PORT'',
                   localIP := msg_at (Message ev) ''R-INT-IP'',
                   remotePort := msg_at (Message ev) ''PORT'',
                   remoteIP := msg_at (Message ev) ''R-U-externalIp'',
                   userId := msg_at (Message ev) ''R-U-accid'', pid := p, nickname := n\<rparr>)
     \<lparr>wantsToJoin := True, canJoin := False\<rparr>))"
  using assms by (simp add: EGAM_def Let_def split: option.splits)

text \<open>
  C4, as the code has it. A join request on an active session whose lookup statement could be
  prepared is acknowledged with an \<open>EGAM\<close> packet that echoes the request's \<open>TID\<close>, whether
  the lookup finds a row for the account id or not.
\<close>

theorem EGAM_acknowledged_when_prepared:
  assumes "IsActive (clients s (Client ev))" and "\<not> prepareFails e"
  shows "\<exists>s1. EGAM e s ev = Returned s1
    \<and> written (clients s1 (Client ev))
        = written (clients s (Client ev)) @ [(''EGAM'', EGAM_answer (Message ev), 0)]
    \<and> EGAM_answer (Message ev) ''TID'' = Some (msg_at (Message ev) ''TID'')"
  using assms
  by (cases "soldier e (msg_at (Message ev) ''R-U-accid'')")
     (auto simp: EGAM_prepared clients_WriteFESL EGAM_answer_def)

theorem EGAM_acknowledged_when_prepared_witness:
  "IsActive (clients serverAndClient (Client (joinRequest ''99'')))
   \<and> \<not> prepareFails exampleEnv
   \<and> soldier exampleEnv (msg_at (Message (joinRequest ''99'')) ''R-U-accid'') = None
   \<and> (\<exists>s1. EGAM exampleEnv serverAndClient (joinRequest ''99'') = Returned s1
        \<and> written (clients s1 (Client (joinRequest ''99'')))
            = written (clients serverAndClient (Client (joinRequest ''99'')))
              @ [(''EGAM'', EGAM_answer (Message (joinRequest ''99'')), 0)]
        \<and> EGAM_answer (Message (joinRequest ''99'')) ''TID'' = Some ''5'')"
proof -
  have client: "IsActive (clients serverAndClient (Client (joinRequest ''99'')))"
    by code_simp
  have prep: "\<not> prepareFails exampleEnv"
    by code_simp
  have unknown: "soldier exampleEnv (msg_at (Message (joinRequest ''99'')) ''R-U-accid'') = None"
    by code_simp
  have tid: "msg_at (Message (joinRequest ''99'')) ''TID'' = ''5''"
    by code_simp
  from EGAM_acknowledged_when_prepared [OF client prep] tid client prep unknown
  show ?thesis by auto
qed

text \<open>
  The claim C4 as it is stated, for every way the lookup can fail, does not hold: when the
  statement cannot be prepared, the handler stops before it writes the acknowledgement, and
  nothing is sent to the client.
\<close>

theorem EGAM_not_acknowledged_when_prepare_fails:
  "IsActive (clients serverAndClient (Client (joinRequest ''42'')))
   \<and> written (clients serverAndClient (Client (joinRequest ''42''))) = []
   \<and> EGAM (exampleEnv\<lparr>prepareFails := True\<rparr>) serverAndClient (joinRequest ''42'')
       = Panicked (stateOf (EGAM (exampleEnv\<lparr>prepareFails := True\<rparr>) serverAndClient (joinRequest ''42'')))
   \<and> written (clients (stateOf (EGAM (exampleEnv\<lparr>prepareFails := True\<rparr>) serverAndClient
         (joinRequest ''42''))) (Client (joinRequest ''42''))) = []"
proof -
  have client: "IsActive (clients serverAndClient (Client (joinRequest ''42'')))"
    by code_simp
  have fails: "prepareFails (exampleEnv\<lparr>prepareFails := True\<rparr>)"
    by simp
  have none: "written (clients serverAndClient (Client (joinRequest ''42''))) = []"
    by code_simp
  from client fails none show ?thesis
    by (simp add: EGAM_def Let_def stateOf_simps)
qed

lemma EGRQ_packet_identity:
  "EGRQ_packet s ''NAME'' = Some (nickname s) \<and> EGRQ_packet s ''UID'' = Some (userId s)
   \<and> EGRQ_packet s ''PID'' = Some (pid s) \<and> EGRQ_packet s ''TICKET'' = Some ''2018751182''"
  by (simp add: EGRQ_packet_def)





text \<open>
  When the lookup finds no row the request is still pending for the server's tick; the
  \<open>EGRQ\<close> then carries the account id of this request with the nickname and the player id
  that were there before it.
\<close>

lemma join_request_unknown_account:
  assumes "IsActive (clients s (Client ev))" and "\<not> prepareFails e"
    and "soldier e (msg_at (Message ev) ''R-U-accid'') = None"
  shows "\<exists>s1. EGAM e s ev = Returned s1 \<and> wantsToJoin s1
    \<and> EGRQ_packet s1 ''NAME'' = Some (nickname s)
    \<and> EGRQ_packet s1 ''PID'' = Some (pid s)
    \<and> EGRQ_packet s1 ''UID'' = Some (msg_at (Message ev) ''R-U-accid'')"
  using assms by (simp add: EGAM_prepared globals_WriteFESL EGRQ_packet_identity)

subsection \<open>The identity answered by USER\<close>

lemma ident_hashSet: "nickname (hashSet h k v s) = nickname s \<and> userId (hashSet h k v s) = userId s"
  by (simp add: hashSet_def)

lemma ident_CGAM_loop: "nickname (CGAM_loop h m s) = nickname s \<and> userId (CGAM_loop h m s) = userId s"
  by (induction h m s rule: CGAM_loop.induct) (simp_all add: ident_hashSet)

lemma ident_UGAM_loop: "nickname (UGAM_loop h m s) = nickname s \<and> userId (UGAM_loop h m s) = userId s"
  by (induction h m s rule: UGAM_loop.induct) (simp_all add: ident_hashSet)

lemma ident_CGAM: "nickname (CGAM s ev) = nickname s \<and> userId (CGAM s ev) = userId s"
  by (simp add: CGAM_def CGAM_store_def Let_def ident_hashSet ident_CGAM_loop globals_WriteFESL
      WriteFESL_def split: addr.splits)

lemma ident_UGAM: "nickname (UGAM s ev) = nickname s \<and> userId (UGAM s ev) = userId s"
  by (simp add: UGAM_def Let_def ident_UGAM_loop)

lemma ident_joinTick: "nickname (joinTick s c) = nickname s \<and> userId (joinTick s c) = userId s"
  by (simp add: joinTick_def Let_def WriteFESL_def)

lemma ident_run_event:
  "name \<noteq> ''client.command.EGAM'' \<Longrightarrow>
   nickname (stateOf (run_event e s name ev)) = nickname s
   \<and> userId (stateOf (run_event e s name ev)) = userId s"
  by (simp add: run_event_def stateOf_simps ident_CGAM ident_UGAM newClient_def CONN_def USER_def
      LLST_def GDAT_def ECNL_def UBRA_def EGRS_def GLST_def PENT_def UPLA_def WriteFESL_def)

lemma ident_perform:
  "\<not> isJoinRequest a \<Longrightarrow>
   nickname (stateOf (perform s a)) = nickname s \<and> userId (stateOf (perform s a)) = userId s"
  by (cases a)
     (simp_all add: perform_def isJoinRequest_def ident_run_event ident_joinTick stateOf_simps
       connect_def close_def)

lemma ident_perform_all:
  "\<forall>a \<in> set as. \<not> isJoinRequest a \<Longrightarrow>
   nickname (stateOf (perform_all s as)) = nickname s
   \<and> userId (stateOf (perform_all s as)) = userId s"
proof (induction as arbitrary: s)
  case Nil
  then show ?case by (simp add: stateOf_simps)
next
  case (Cons a as)
  then have a: "\<not> isJoinRequest a" and rest: "\<forall>a \<in> set as. \<not> isJoinRequest a" by simp_all
  show ?case
  proof (cases "perform s a")
    case (Returned s1)
    with ident_perform [OF a, of s] Cons.IH [OF rest, of s1] show ?thesis
      by (simp add: stateOf_simps)
  next
    case (Panicked s1)
    with ident_perform [OF a, of s] show ?thesis by (simp add: stateOf_simps)
  qed
qed

lemma perform_all_append:
  "perform_all s (xs @ ys) =
     (case perform_all s xs of Returned s1 \<Rightarrow> perform_all s1 ys | Panicked s1 \<Rightarrow> Panicked s1)"
  by (induction xs arbitrary: s) (simp_all split: result.splits)

lemma EGAM_identity:
  assumes "IsActive (clients s (Client ev))" and "\<not> prepareFails e"
  shows "\<exists>s1. EGAM e s ev = Returned s1
    \<and> userId s1 = msg_at (Message ev) ''R-U-accid''
    \<and> nickname s1 = (case soldier e (msg_at (Message ev) ''R-U-accid'') of
                       None \<Rightarrow> nickname s
                     | Some (p, n) \<Rightarrow> n)"
  using assms
  by (cases "soldier e (msg_at (Message ev) ''R-U-accid'')")
     (auto simp: EGAM_prepared globals_WriteFESL)

text \<open>
  C10. The answer to \<open>USER\<close> on an active session has the package-level \<open>nickname\<close> under
  \<open>NAME\<close> and the package-level \<open>userId\<close> under \<open>CID\<close>, whichever session asks. From
  the start of the process, as long as no join request has been handled, both are empty. After
  a join request on any active session, and whatever is handled after it that is not a join
  request, \<open>userId\<close> is the account id of that request and \<open>nickname\<close> the nickname its
  lookup found (the earlier one is kept when the lookup finds no row).
\<close>

theorem USER_identity_is_process_global:
  "(IsActive (clients s (Client ev)) \<longrightarrow>
      written (clients (USER s ev) (Client ev))
        = written (clients s (Client ev)) @ [(Query ev, USER_answer s (Message ev), 0)]
      \<and> USER_answer s (Message ev) ''NAME'' = Some (nickname s)
      \<and> USER_answer s (Message ev) ''CID'' = Some (userId s))
   \<and> ((\<forall>a \<in> set before. \<not> isJoinRequest a) \<longrightarrow>
        nickname (stateOf (perform_all start before)) = []
        \<and> userId (stateOf (perform_all start before)) = [])
   \<and> (perform_all start before = Returned s0 \<and> IsActive (clients s0 (Client join))
        \<and> \<not> prepareFails e \<and> (\<forall>a \<in> set after. \<not> isJoinRequest a) \<longrightarrow>
        userId (stateOf (perform_all start (before @ Event e ''client.command.EGAM'' join # after)))
          = msg_at (Message join) ''R-U-accid''
        \<and> nickname (stateOf (perform_all start (before @ Event e ''client.command.EGAM'' join # after)))
          = (case soldier e (msg_at (Message join) ''R-U-accid'') of
               None \<Rightarrow> nickname s0
             | Some (p, n) \<Rightarrow> n))"
proof (intro conjI impI)
  assume "IsActive (clients s (Client ev))"
  then show "written (clients (USER s ev) (Client ev))
      = written (clients s (Client ev)) @ [(Query ev, USER_answer s (Message ev), 0)]"
    by (simp add: USER_def clients_WriteFESL)
next
  show "USER_answer s (Message ev) ''NAME'' = Some (nickname s)"
    by (simp add: USER_answer_def)
next
  show "USER_answer s (Message ev) ''CID'' = Some (userId s)"
    by (simp add: USER_answer_def)
next
  assume "\<forall>a \<in> set before. \<not> isJoinRequest a"
  from ident_perform_all [OF this, of start]
  show "nickname (stateOf (perform_all start before)) = []"
    and "userId (stateOf (perform_all start before)) = []"
    by (simp_all add: start_def)
next
  assume h: "perform_all start before = Returned s0 \<and> IsActive (clients s0 (Client join))
        \<and> \<not> prepareFails e \<and> (\<forall>a \<in> set after. \<not> isJoinRequest a)"
  then obtain s1 where s1: "EGAM e s0 join = Returned s1"
    and u1: "userId s1 = msg_at (Message join) ''R-U-accid''"
    and n1: "nickname s1 = (case soldier e (msg_at (Message join) ''R-U-accid'') of
                             None \<Rightarrow> nickname s0
                           | Some (p, n) \<Rightarrow> n)"
    using EGAM_identity [of s0 join e] by blast
  from h s1 have run: "perform_all start (before @ Event e ''client.command.EGAM'' join # after)
      = perform_all s1 after"
    by (simp add: perform_all_append perform_def run_event_def)
  from h have "\<forall>a \<in> set after. \<not> isJoinRequest a" by simp
  from ident_perform_all [OF this, of s1] n1 u1 run
  show "userId (stateOf (perform_all start (before @ Event e ''client.command.EGAM'' join # after)))
          = msg_at (Message join) ''R-U-accid''"
    and "nickname (stateOf (perform_all start (before @ Event e ''client.command.EGAM'' join # after)))
          = (case soldier e (msg_at (Message join) ''R-U-accid'') of
               None \<Rightarrow> nickname s0
             | Some (p, n) \<Rightarrow> n)"
    by simp_all
qed

theorem USER_identity_is_process_global_witness:
  "list_all (\<lambda>a. \<not> isJoinRequest a) beforeJoin
   \<and> nickname (stateOf (perform_all start beforeJoin)) = []
   \<and> userId (stateOf (perform_all start beforeJoin)) = []
   \<and> perform_all start beforeJoin
       = Returned (connect (connect start 1 (TCPAddr ''10.0.0.7'' 40001)) 3 (TCPAddr ''10.0.0.9'' 50003))
   \<and> IsActive (clients (connect (connect start 1 (TCPAddr ''10.0.0.7'' 40001)) 3
         (TCPAddr ''10.0.0.9'' 50003)) (Client (joinRequest ''42'')))
   \<and> \<not> prepareFails exampleEnv
   \<and> soldier exampleEnv (msg_at (Message (joinRequest ''42'')) ''R-U-accid'') = Some (''7001'', ''Alice'')
   \<and> list_all (\<lambda>a. \<not> isJoinRequest a) afterJoin
   \<and> nickname (stateOf (perform_all start
         (beforeJoin @ Event exampleEnv ''client.command.EGAM'' (joinRequest ''42'') # afterJoin))) = ''Alice''
   \<and> userId (stateOf (perform_all start
         (beforeJoin @ Event exampleEnv ''client.command.EGAM'' (joinRequest ''42'') # afterJoin))) = ''42''
   \<and> IsActive (clients (stateOf (perform_all start
         (beforeJoin @ Event exampleEnv ''client.command.EGAM'' (joinRequest ''42'') # afterJoin)))
         (Client userQuery))
   \<and> USER_answer (stateOf (perform_all start
         (beforeJoin @ Event exampleEnv ''client.command.EGAM'' (joinRequest ''42'') # afterJoin)))
         (Message userQuery) ''NAME'' = Some ''Alice''
   \<and> USER_answer (stateOf (perform_all start
         (beforeJoin @ Event exampleEnv ''client.command.EGAM'' (joinRequest ''42'') # afterJoin)))
         (Message userQuery) ''CID'' = Some ''42''"
proof -
  let ?s0 = "connect (connect start 1 (TCPAddr ''10.0.0.7'' 40001)) 3 (TCPAddr ''10.0.0.9'' 50003)"
  let ?run = "beforeJoin @ Event exampleEnv ''client.command.EGAM'' (joinRequest ''42'') # afterJoin"
  have before: "list_all (\<lambda>a. \<not> isJoinRequest a) beforeJoin"
    by (simp add: beforeJoin_def isJoinRequest_def)
  have after: "list_all (\<lambda>a. \<not> isJoinRequest a) afterJoin"
    by (simp add: afterJoin_def isJoinRequest_def)
  have s0: "perform_all start beforeJoin = Returned ?s0"
    by (simp add: beforeJoin_def perform_def)
  have client: "IsActive (clients ?s0 (Client (joinRequest ''42'')))"
    by (simp add: connect_def joinRequest_def)
  have prep: "\<not> prepareFails exampleEnv"
    by code_simp
  have acc: "msg_at (Message (joinRequest ''42'')) ''R-U-accid'' = ''42''"
    by code_simp
  have row: "soldier exampleEnv (msg_at (Message (joinRequest ''42'')) ''R-U-accid'') = Some (''7001'', ''Alice'')"
    by code_simp
  have asker: "IsActive (clients (stateOf (perform_all start ?run)) (Client userQuery))"
    by code_simp
  note inst = USER_identity_is_process_global [of "stateOf (perform_all start ?run)" userQuery
      beforeJoin ?s0 "joinRequest ''42''" exampleEnv afterJoin]
  from inst before after s0 client prep row asker acc show ?thesis
    by (simp add: list_all_iff)
qed

subsection \<open>The two drafts of UGAM\<close>

lemma redis_UGAM_loop_other: "h' \<noteq> h \<Longrightarrow> redis (UGAM_loop h m s) h' = redis s h'"
  by (induction h m s rule: UGAM_loop.induct) (simp_all add: redis_hashSet)

text \<open>The value a run of writes leaves under a key is the one written last.\<close>

lemma redis_UGAM_loop:
  "redis (UGAM_loop h zs s) h k = (case map_of (rev zs) k of Some v \<Rightarrow> Some v | None \<Rightarrow> redis s h k)"
proof (induction h zs s rule: UGAM_loop.induct)
  case (1 h s)
  show ?case by simp
next
  case (2 h index val rest s)
  then show ?case
    by (simp add: redis_hashSet map_add_def split: option.splits)
qed

lemma map_of_rev_distinct: "distinct (map fst m) \<Longrightarrow> map_of (rev m) = map_of m"
proof (induction m)
  case Nil
  show ?case by simp
next
  case (Cons a m)
  then have "map_of m (fst a) = None"
    by (simp add: map_of_eq_None_iff)
  with Cons show ?case
    by (cases a) (auto simp: map_add_def fun_eq_iff split: option.splits)
qed

lemma redis_UGAM:
  assumes "IsActive (clients s (Client ev))" and "distinct (map fst (Message ev))"
  shows "redis (UGAM s ev) (gameServerHash (msg_at (Message ev) ''LID'')) k
    = (case map_of (Message ev) k of
         Some v \<Rightarrow> Some v
       | None \<Rightarrow> redis s (gameServerHash (msg_at (Message ev) ''LID'')) k)"
  using assms by (simp add: UGAM_def Let_def redis_UGAM_loop map_of_rev_distinct split: option.splits)


lemma redis_UGAM2_loop:
  "distinct (map fst m) \<Longrightarrow>
   redis (fst (UGAM2_loop h g m (s, args, keys))) h k =
     (case map_of m k of
        Some v \<Rightarrow> if k = ''TID'' then redis s h k else Some (stripQuotes v)
      | None \<Rightarrow> redis s h k)"
proof (induction m arbitrary: s args keys)
  case Nil
  show ?case by simp
next
  case (Cons a m)
  obtain index val where a: "a = (index, val)" by (cases a)
  from Cons.prems a have d: "distinct (map fst m)" and fresh: "map_of m index = None"
    by (simp_all add: map_of_eq_None_iff)
  show ?case
  proof (cases "index = ''TID''")
    case True
    with Cons.IH [OF d, of s args keys] a fresh show ?thesis
      by (auto split: option.splits)
  next
    case False
    with Cons.IH [OF d, of "hashSet h index (stripQuotes val) s"
        "args @ [g, index, stripQuotes val]" "keys + 1"] a fresh
    show ?thesis
      by (auto simp: redis_hashSet split: option.splits)
  qed
qed

lemma UGAM2_loop_stored:
  assumes "distinct (map fst m)" and "UGAM2_loop h g m (s, args, keys) = (s1, args1, keys1)"
  shows "redis s1 h k =
     (case map_of m k of
        Some v \<Rightarrow> if k = ''TID'' then redis s h k else Some (stripQuotes v)
      | None \<Rightarrow> redis s h k)"
  using redis_UGAM2_loop [OF assms(1), of h g s args keys k] assms(2) by simp

lemma redis_UGAM2:
  assumes "IsActive (clients s (Client ev))" and "distinct (map fst (Message ev))"
  shows "redis (stateOf (UGAM2 e s ev)) (ObjectHash ''gdata'' (msg_at (Message ev) ''GID'')) k
    = (case map_of (Message ev) k of
         Some v \<Rightarrow>
           if k = ''TID'' then redis s (ObjectHash ''gdata'' (msg_at (Message ev) ''GID'')) k
           else Some (stripQuotes v)
       | None \<Rightarrow> redis s (ObjectHash ''gdata'' (msg_at (Message ev) ''GID'')) k)"
proof -
  define g where "g = msg_at (Message ev) ''GID''"
  obtain s1 args n where loop:
    "UGAM2_loop (ObjectHash ''gdata'' g) g (Message ev) (s, [], 0) = (s1, args, n)"
    by (cases "UGAM2_loop (ObjectHash ''gdata'' g) g (Message ev) (s, [], 0)") auto
  from assms(1) loop have "redis (stateOf (UGAM2 e s ev)) = redis s1"
    by (simp add: UGAM2_def g_def [symmetric] Let_def stateOf_simps split: option.splits)
  with UGAM2_loop_stored [OF assms(2) loop, of k] show ?thesis
    unfolding g_def by simp
qed



text \<open>
  C9, as the code has it. The draft of the theater manager stores every entry of the
  message, \<open>TID\<close> included and the values as they are, in the hash of the lobby id; the
  second draft stores every entry but \<open>TID\<close>, the values stripped of their quotes, in the
  hash of the game id.
\<close>

theorem UGAM_drafts_stored_records:
  assumes "IsActive (clients s (Client ev))" and "distinct (map fst (Message ev))"
  shows "redis (UGAM s ev) (gameServerHash (msg_at (Message ev) ''LID'')) k
      = (case map_of (Message ev) k of
           Some v \<Rightarrow> Some v
         | None \<Rightarrow> redis s (gameServerHash (msg_at (Message ev) ''LID'')) k)
    \<and> redis (stateOf (UGAM2 e s ev)) (ObjectHash ''gdata'' (msg_at (Message ev) ''GID'')) k
      = (case map_of (Message ev) k of
           Some v \<Rightarrow>
             if k = ''TID'' then redis s (ObjectHash ''gdata'' (msg_at (Message ev) ''GID'')) k
             else Some (stripQuotes v)
         | None \<Rightarrow> redis s (ObjectHash ''gdata'' (msg_at (Message ev) ''GID'')) k)"
  using redis_UGAM [OF assms] redis_UGAM2 [OF assms] by simp

theorem UGAM_drafts_stored_records_witness:
  "IsActive (clients serverAndClient (Client updateGame))
   \<and> distinct (map fst (Message updateGame))
   \<and> redis (UGAM serverAndClient updateGame) (gameServerHash ''1'') ''B-U-custom'' = Some ''x''
   \<and> redis (stateOf (UGAM2 exampleEnv serverAndClient updateGame)) (ObjectHash ''gdata'' ''5459'')
       ''B-U-custom'' = Some ''x''"
proof -
  have active: "IsActive (clients serverAndClient (Client updateGame))"
    by code_simp
  have keys: "distinct (map fst (Message updateGame))"
    by (simp add: updateGame_def)
  have ids: "msg_at (Message updateGame) ''GID'' = ''5459''" "msg_at (Message updateGame) ''LID'' = ''1''"
    by code_simp+
  have entry: "map_of (Message updateGame) ''B-U-custom'' = Some ''x''"
    by (simp add: updateGame_def)
  have plain: "stripQuotes ''x'' = ''x''"
    by code_simp
  from UGAM_drafts_stored_records [OF active keys, of "''B-U-custom''" exampleEnv]
    ids entry plain active keys
  show ?thesis by simp
qed

text \<open>
  The claim C9 as it is stated does not hold: for a message with \<open>TID\<close> and a quoted value
  the first draft stores \<open>TID\<close> and keeps the quotes, the second does neither.
\<close>

theorem UGAM_drafts_store_different_pairs:
  "redis (UGAM serverAndClient updateGame) (gameServerHash ''1'') ''TID'' = Some ''7''
   \<and> redis (stateOf (UGAM2 exampleEnv serverAndClient updateGame)) (ObjectHash ''gdata'' ''5459'')
       ''TID'' = None
   \<and> redis (UGAM serverAndClient updateGame) (gameServerHash ''1'') ''B-U-map''
       = Some (CHR 0x22 # ''village'' @ [CHR 0x22])
   \<and> redis (stateOf (UGAM2 exampleEnv serverAndClient updateGame)) (ObjectHash ''gdata'' ''5459'')
       ''B-U-map'' = Some ''village''"
  by code_simp

subsection \<open>Updates and queries of a lobby\<close>

lemma filter_key_single:
  "distinct (map fst xs) \<Longrightarrow> (k, v) \<in> set xs \<Longrightarrow> filter (\<lambda>p. fst p = k) xs = [(k, v)]"
proof (induction xs)
  case Nil
  then show ?case by simp
next
  case (Cons a xs)
  show ?case
  proof (cases "a = (k, v)")
    case True
    with Cons.prems have "\<forall>p \<in> set xs. fst p \<noteq> k" by force
    then have "filter (\<lambda>p. fst p = k) xs = []" by (simp add: filter_empty_conv)
    with True show ?thesis by simp
  next
    case False
    with Cons.prems have mem: "(k, v) \<in> set xs" by simp
    then have "k \<in> fst ` set xs" by force
    with Cons.prems have "fst a \<noteq> k" by auto
    with mem Cons show ?thesis by simp
  qed
qed

lemma map_of_filter_key: "map_of (filter (\<lambda>p. fst p = k) xs) k = map_of xs k"
  by (induction xs) auto

lemma shuffles_last_write:
  assumes "zs \<in> shuffles xs ys" and "distinct (map fst xs)" and "(k, v) \<in> set xs"
    and "k \<notin> fst ` set ys"
  shows "map_of (rev zs) k = Some v"
proof -
  let ?P = "\<lambda>p. fst p = k"
  from assms(4) have "filter ?P ys = []" by (auto simp: filter_empty_conv)
  moreover from assms(1) have "filter ?P zs \<in> shuffles (filter ?P xs) (filter ?P ys)"
    using filter_shuffles [of ?P xs ys] by blast
  ultimately have "filter ?P zs = [(k, v)]"
    using filter_key_single [OF assms(2, 3)] by simp
  then have "map_of (filter ?P (rev zs)) k = Some v"
    by (simp add: rev_filter [symmetric])
  then show ?thesis by (simp add: map_of_filter_key)
qed

lemma written_UGAM: "written (clients (UGAM s ev) c) = written (clients s c)"
proof -
  have "written (clients (UGAM_loop h m s) c) = written (clients s c)" for h m s
    by (induction h m s rule: UGAM_loop.induct) (simp_all add: hashSet_def)
  then show ?thesis by (simp add: UGAM_def Let_def)
qed

lemma IsActive_UGAM: "IsActive (clients (UGAM s ev) c) = IsActive (clients s c)"
proof -
  have "IsActive (clients (UGAM_loop h m s) c) = IsActive (clients s c)" for h m s
    by (induction h m s rule: UGAM_loop.induct) (simp_all add: hashSet_def)
  then show ?thesis by (simp add: UGAM_def Let_def)
qed

text \<open>
  C3, as the code has it. After \<open>UGAM\<close> the lobby's hash in the shared store holds every
  entry of the message; the packet that a following \<open>GDAT\<close> writes is the fixed answer, in
  which only \<open>TID\<close> comes from the request. When the writes of two updates of one lobby
  interleave in any order, every key that only one of them supplies ends with that update's
  value.
\<close>

theorem UGAM_stored_but_GDAT_fixed:
  assumes "IsActive (clients s (Client ev))" and "distinct (map fst (Message ev))"
    and "IsActive (clients s (Client q))"
  shows "(\<forall>(k, v) \<in> set (Message ev).
            redis (UGAM s ev) (gameServerHash (msg_at (Message ev) ''LID'')) k = Some v)
    \<and> written (clients (GDAT (UGAM s ev) q) (Client q))
        = written (clients s (Client q)) @ [(''GDAT'', GDAT_answer (Message q), 0)]
    \<and> (\<forall>zs \<in> shuffles m1 m2. \<forall>(k, v) \<in> set m1.
          distinct (map fst m1) \<and> k \<notin> fst ` set m2 \<longrightarrow> redis (UGAM_loop h zs s) h k = Some v)"
proof (intro conjI)
  show "\<forall>(k, v) \<in> set (Message ev).
      redis (UGAM s ev) (gameServerHash (msg_at (Message ev) ''LID'')) k = Some v"
    using assms(2) by (auto simp: redis_UGAM [OF assms(1, 2)])
  show "written (clients (GDAT (UGAM s ev) q) (Client q))
      = written (clients s (Client q)) @ [(''GDAT'', GDAT_answer (Message q), 0)]"
    using assms(3) by (simp add: GDAT_def IsActive_UGAM clients_WriteFESL written_UGAM)
  show "\<forall>zs \<in> shuffles m1 m2. \<forall>(k, v) \<in> set m1.
      distinct (map fst m1) \<and> k \<notin> fst ` set m2 \<longrightarrow> redis (UGAM_loop h zs s) h k = Some v"
    by (auto simp: redis_UGAM_loop shuffles_last_write)
qed

theorem UGAM_stored_but_GDAT_fixed_witness:
  "IsActive (clients serverAndClient (Client updateGame))
   \<and> distinct (map fst (Message updateGame))
   \<and> IsActive (clients serverAndClient (Client gameQuery))
   \<and> redis (UGAM serverAndClient updateGame) (gameServerHash ''1'') ''B-U-custom'' = Some ''x''
   \<and> written (clients (GDAT (UGAM serverAndClient updateGame) gameQuery) (Client gameQuery))
       = written (clients serverAndClient (Client gameQuery))
         @ [(''GDAT'', GDAT_answer (Message gameQuery), 0)]
   \<and> [(''B'', ''2''), (''A'', ''1'')] \<in> shuffles [(''A'', ''1'')] [(''B'', ''2'')]
   \<and> redis (UGAM_loop (gameServerHash ''1'') [(''B'', ''2''), (''A'', ''1'')] serverAndClient)
       (gameServerHash ''1'') ''A'' = Some ''1''"
proof -
  have active: "IsActive (clients serverAndClient (Client updateGame))"
    by code_simp
  have keys: "distinct (map fst (Message updateGame))"
    by (simp add: updateGame_def)
  have asker: "IsActive (clients serverAndClient (Client gameQuery))"
    by code_simp
  have lid: "msg_at (Message updateGame) ''LID'' = ''1''"
    by code_simp
  have entry: "(''B-U-custom'', ''x'') \<in> set (Message updateGame)"
    by (simp add: updateGame_def)
  have order: "[(''B'', ''2''), (''A'', ''1'')] \<in> shuffles [(''A'', ''1'')] [(''B'', ''2'')]"
    by simp
  note inst = UGAM_stored_but_GDAT_fixed [OF active keys asker,
      of "[(''A'', ''1'')]" "[(''B'', ''2'')]" "gameServerHash ''1''"]
  from inst entry lid
  have one: "redis (UGAM serverAndClient updateGame) (gameServerHash ''1'') ''B-U-custom'' = Some ''x''"
    by fastforce
  from inst order
  have two: "redis (UGAM_loop (gameServerHash ''1'') [(''B'', ''2''), (''A'', ''1'')] serverAndClient)
       (gameServerHash ''1'') ''A'' = Some ''1''"
    by fastforce
  from inst one two order active keys asker show ?thesis by simp
qed

text \<open>
  The claim C3 as it is stated does not hold: after an update that stores a map name and a
  custom attribute, the answer to \<open>GDAT\<close> for the same lobby still has the fixed map name
  and does not have the custom attribute.
\<close>

theorem GDAT_answer_ignores_the_store:
  "redis (UGAM serverAndClient updateGame) (gameServerHash ''1'') ''B-U-map''
       = Some (CHR 0x22 # ''village'' @ [CHR 0x22])
   \<and> redis (UGAM serverAndClient updateGame) (gameServerHash ''1'') ''B-U-custom'' = Some ''x''
   \<and> map (\<lambda>(q, pkt, t). (q, pkt ''B-U-map'', pkt ''B-U-custom''))
        (written (clients (GDAT (UGAM serverAndClient updateGame) gameQuery) (Client gameQuery)))
       = [(''GDAT'', Some ''no_vehicles'', None)]"
  by code_simp

subsection \<open>Sessions that are not active\<close>

text \<open>
  C5. An event for a session whose active flag is false leaves the whole state as it is,
  whatever the event's name: no packet is written, no variable, no hash of the store and no
  statement log changes. The same holds for the stats handler of the FESL manager and for the
  second draft of \<open>UGAM\<close>.
\<close>

theorem inactive_session_is_ignored:
  assumes "\<not> IsActive (clients s (Client ev))"
  shows "run_event e s name ev = Returned s \<and> GetStats e s ev = Returned s
    \<and> UGAM2 e s ev = Returned s"
  using assms
  by (simp add: run_event_def newClient_def CONN_def USER_def LLST_def GDAT_def EGAM_def ECNL_def
      CGAM_def UBRA_def UGAM_def EGRS_def GLST_def PENT_def UPLA_def GetStats_def UGAM2_def)

theorem inactive_session_is_ignored_witness:
  "\<not> IsActive (clients serverAndClient (Client createB))
   \<and> run_event exampleEnv serverAndClient ''client.command.CGAM'' createB = Returned serverAndClient
   \<and> GetStats exampleEnv serverAndClient createB = Returned serverAndClient
   \<and> UGAM2 exampleEnv serverAndClient createB = Returned serverAndClient"
proof -
  have closed: "\<not> IsActive (clients serverAndClient (Client createB))"
    by code_simp
  from inactive_session_is_ignored [OF closed] closed show ?thesis by simp
qed

subsection \<open>The heartbeat\<close>

lemma heartbeat_active: "heartbeat (replicate n (True, True)) = replicate n (''PING'', pingPacket, 0)"
  by (induction n) simp_all

lemma heartbeat_stops:
  "\<not> (atTop \<and> atTick) \<Longrightarrow> heartbeat (seen @ (atTop, atTick) # later) = heartbeat seen"
  by (induction seen rule: heartbeat.induct) auto

text \<open>
  C8. The heartbeat ticker of an active session has a period of 10 seconds. As long as both
  reads of the active flag see it set, every tick writes one \<open>PING\<close> whose \<open>TID\<close> is
  \<open>"0"\<close>, for any number of ticks; from the first read that sees the flag cleared on, nothing
  more is written, whatever is read later.
\<close>

theorem heartbeat_pings_until_inactive:
  "(IsActive (clients s c) \<longrightarrow> HeartTicker (clients (newClient s c) c) = Some 10)
   \<and> heartbeat (replicate n (True, True)) = replicate n (''PING'', pingPacket, 0)
   \<and> pingPacket ''TID'' = Some ''0''
   \<and> (\<not> (atTop \<and> atTick) \<longrightarrow> heartbeat (seen @ (atTop, atTick) # later) = heartbeat seen)"
  by (simp add: heartbeat_active heartbeat_stops newClient_def pingPacket_def)

theorem heartbeat_pings_until_inactive_witness:
  "IsActive (clients serverAndClient 3)
   \<and> HeartTicker (clients (newClient serverAndClient 3) 3) = Some 10
   \<and> heartbeat (replicate 3 (True, True))
       = [(''PING'', pingPacket, 0), (''PING'', pingPacket, 0), (''PING'', pingPacket, 0)]
   \<and> pingPacket ''TID'' = Some ''0''
   \<and> heartbeat ([(True, True)] @ (True, False) # [(True, True), (True, True)])
       = [(''PING'', pingPacket, 0)]"
proof -
  have active: "IsActive (clients serverAndClient 3)"
    by code_simp
  from heartbeat_pings_until_inactive [of serverAndClient 3 3 True False "[(True, True)]"
      "[(True, True), (True, True)]"] active
  show ?thesis by (simp add: numeral_3_eq_3)
qed

end
